theory Spec2Isabelle
  imports Complex_Main
begin

section \<open>Python strings\<close>

text \<open>
  A Python \<^verbatim>\<open>str\<close> is a sequence of Unicode code points. A code point is a natural
  number here, so that the whitespace, line-boundary and case-folding tables of
  CPython can be written down in full; \<open>py\<close> turns an ASCII literal into such a string.
\<close>

type_synonym pystr = "nat list"

definition py :: "string \<Rightarrow> pystr" where
  "py s = map of_char s"

text \<open>\<^verbatim>\<open>str.isspace\<close> for one character: the set \<^verbatim>\<open>str.strip()\<close> removes.\<close>

definition isspace :: "nat \<Rightarrow> bool" where
  "isspace c \<longleftrightarrow>
     (0x09 \<le> c \<and> c \<le> 0x0D) \<or> (0x1C \<le> c \<and> c \<le> 0x20) \<or> c = 0x85 \<or> c = 0xA0 \<or>
     c = 0x1680 \<or> (0x2000 \<le> c \<and> c \<le> 0x200A) \<or> c = 0x2028 \<or> c = 0x2029 \<or>
     c = 0x202F \<or> c = 0x205F \<or> c = 0x3000"

text \<open>The line boundaries of \<^verbatim>\<open>str.splitlines()\<close>.\<close>

definition is_linebreak :: "nat \<Rightarrow> bool" where
  "is_linebreak c \<longleftrightarrow>
     (0x0A \<le> c \<and> c \<le> 0x0D) \<or> (0x1C \<le> c \<and> c \<le> 0x1E) \<or> c = 0x85 \<or>
     c = 0x2028 \<or> c = 0x2029"

definition lstrip :: "pystr \<Rightarrow> pystr" where
  "lstrip s = dropWhile isspace s"

definition rstrip :: "pystr \<Rightarrow> pystr" where
  "rstrip s = rev (dropWhile isspace (rev s))"

definition strip :: "pystr \<Rightarrow> pystr" where
  "strip s = rstrip (lstrip s)"

text \<open>
  \<^verbatim>\<open>str.splitlines()\<close>: a line runs up to the next line boundary, \<^verbatim>\<open>\r\n\<close> counts as
  one boundary, and nothing follows a boundary that ends the string.
\<close>

fun skip_break :: "pystr \<Rightarrow> pystr" where
  "skip_break [] = []"
| "skip_break [b] = []"
| "skip_break (b # n # r) = (if b = 0x0D \<and> n = 0x0A then r else n # r)"

function splitlines :: "pystr \<Rightarrow> pystr list" where
  "splitlines [] = []"
| "splitlines (c # cs) =
     takeWhile (\<lambda>x. \<not> is_linebreak x) (c # cs)
       # splitlines (skip_break (dropWhile (\<lambda>x. \<not> is_linebreak x) (c # cs)))"
  by pat_completeness auto
termination
proof (relation "measure length")
  fix c :: nat and cs :: pystr
  let ?rest = "dropWhile (\<lambda>x. \<not> is_linebreak x) (c # cs)"
  have le: "length ?rest \<le> length (c # cs)"
    by (rule length_dropWhile_le)
  have "length (skip_break ?rest) < length (c # cs)"
  proof (cases "?rest = []")
    case True
    then show ?thesis by simp
  next
    case False
    then have "length (skip_break ?rest) < length ?rest"
      by (cases ?rest rule: skip_break.cases) auto
    with le show ?thesis by linarith
  qed
  then show "(skip_break ?rest, c # cs) \<in> measure length" by simp
qed simp

section \<open>FileParser\<close>

text \<open>
  The two patterns are compiled with \<^verbatim>\<open>re.IGNORECASE\<close>. For a literal of the pattern
  that is an ASCII letter, the \<^verbatim>\<open>re\<close> module accepts both ASCII cases and, for
  \<^verbatim>\<open>i\<close>, \<^verbatim>\<open>s\<close> and \<^verbatim>\<open>k\<close>, the letters U+0130, U+0131, U+017F and U+212A; any other
  ASCII literal matches itself only.
\<close>

definition lit_ignorecase :: "nat \<Rightarrow> nat \<Rightarrow> bool" where
  "lit_ignorecase p c \<longleftrightarrow>
     (if p = 0x49 \<or> p = 0x69 then c = 0x49 \<or> c = 0x69 \<or> c = 0x130 \<or> c = 0x131
      else if p = 0x53 \<or> p = 0x73 then c = 0x53 \<or> c = 0x73 \<or> c = 0x17F
      else if p = 0x4B \<or> p = 0x6B then c = 0x4B \<or> c = 0x6B \<or> c = 0x212A
      else if 0x41 \<le> p \<and> p \<le> 0x5A then c = p \<or> c = p + 0x20
      else if 0x61 \<le> p \<and> p \<le> 0x7A then c = p \<or> c + 0x20 = p
      else c = p)"

text \<open>The literal part of a pattern, anchored at the start: the rest of the line on success.\<close>

fun match_literals :: "pystr \<Rightarrow> pystr \<Rightarrow> pystr option" where
  "match_literals [] s = Some s"
| "match_literals (p # ps) [] = None"
| "match_literals (p # ps) (c # cs) =
     (if lit_ignorecase p c then match_literals ps cs else None)"

text \<open>
  \<^verbatim>\<open>(.+)$\<close>: the dot takes every character but \<^verbatim>\<open>\n\<close>, at least one, and \<^verbatim>\<open>$\<close> holds
  at the end of the string or before a \<^verbatim>\<open>\n\<close> that ends it. The result is group 1.
\<close>

definition dot_plus_end :: "pystr \<Rightarrow> pystr option" where
  "dot_plus_end s =
     (let g = takeWhile (\<lambda>x. x \<noteq> 0x0A) s; r = dropWhile (\<lambda>x. x \<noteq> 0x0A) s
      in if g \<noteq> [] \<and> (r = [] \<or> r = [0x0A]) then Some g else None)"

definition pattern_match :: "pystr \<Rightarrow> pystr \<Rightarrow> pystr option" where
  "pattern_match label line =
     (case match_literals label line of None \<Rightarrow> None | Some rest \<Rightarrow> dot_plus_end rest)"

definition ARTIST_PATTERN :: "pystr \<Rightarrow> pystr option" where
  "ARTIST_PATTERN line = pattern_match (py ''Artist: '') line"

definition TITLE_PATTERN :: "pystr \<Rightarrow> pystr option" where
  "TITLE_PATTERN line = pattern_match (py ''Title: '') line"

text \<open>The loop of \<^verbatim>\<open>_extract_metadata\<close>, one line at a time, with the two candidates.\<close>

fun extract_loop :: "pystr option \<times> pystr option \<Rightarrow> pystr list \<Rightarrow> pystr option \<times> pystr option" where
  "extract_loop (artist, title) [] = (artist, title)"
| "extract_loop (artist, title) (l # ls) =
     (let line = strip l in
      if line = [] then extract_loop (artist, title) ls
      else case ARTIST_PATTERN line of
          Some g \<Rightarrow> extract_loop (Some (strip g), title) ls
        | None \<Rightarrow>
            (case TITLE_PATTERN line of
               Some g \<Rightarrow> extract_loop (artist, Some (strip g)) ls
             | None \<Rightarrow> extract_loop (artist, title) ls))"

definition extract_metadata :: "pystr \<Rightarrow> pystr option \<times> pystr option" where
  "extract_metadata content = extract_loop (None, None) (splitlines content)"

section \<open>Effects and errors\<close>

text \<open>
  What a run does to the outside world is kept as a list of effects, in order: each call
  of \<^verbatim>\<open>logging\<close> (its level, its format string and the values interpolated), and each
  request handed to \<^verbatim>\<open>session.post\<close> (the URL, the session's credentials, the timeout).
\<close>

text \<open>
  The exceptions that the modelled code raises or lets through: \<^verbatim>\<open>FileNotFoundError\<close>
  with the path, the \<^verbatim>\<open>IOError\<close> of \<^verbatim>\<open>parse_file\<close> with the path and the text of its
  cause, and the two codec errors. All of them derive from \<^verbatim>\<open>Exception\<close>.
\<close>

datatype exn =
    FileNotFoundError pystr
  | IOError pystr pystr
  | UnicodeDecodeError
  | UnicodeEncodeError

datatype request_exception =
    ConnectionError
  | Timeout
  | TooManyRedirects
  | HTTPError int
  | OtherRequestException pystr

datatype level = DEBUG | INFO | WARNING | ERROR

datatype message =
    FileIsEmpty
  | PostRequest pystr
  | SuccessfullyPosted pystr pystr
  | ApiRequestFailed request_exception
  | MissingArtistOrTitle
  | EmptyAfterStripping
  | UnknownTimezone pystr
  | FileChanged pystr
  | Extracted pystr pystr
  | CouldNotExtract
  | ErrorProcessingFileChange exn
  | InitialFileContent pystr pystr
  | NoValidInitial
  | ErrorProcessingInitialFile exn
  | FailedToStartMonitoring exn
  | StartedMonitoring pystr

datatype effect =
    Log level message
  | HttpPost pystr "pystr \<times> pystr" nat

text \<open>A computation: the effects it had, then the exception it raised or its value.\<close>

type_synonym 'a io = "effect list \<times> (exn + 'a)"

definition return_io :: "'a \<Rightarrow> 'a io" where
  "return_io x = ([], Inr x)"

definition raise_io :: "exn \<Rightarrow> 'a io" where
  "raise_io e = ([], Inl e)"

definition logging :: "level \<Rightarrow> message \<Rightarrow> unit io" where
  "logging l m = ([Log l m], Inr ())"

definition bind_io :: "'a io \<Rightarrow> ('a \<Rightarrow> 'b io) \<Rightarrow> 'b io" where
  "bind_io m f =
     (case m of
        (tr, Inl e) \<Rightarrow> (tr, Inl e)
      | (tr, Inr x) \<Rightarrow> (case f x of (tr', r) \<Rightarrow> (tr @ tr', r)))"

text \<open>\<^verbatim>\<open>try: ... except Exception as e: ...\<close> with the handler \<open>h\<close>.\<close>

definition try_except :: "'a io \<Rightarrow> (exn \<Rightarrow> 'a io) \<Rightarrow> 'a io" where
  "try_except m h =
     (case m of
        (tr, Inl e) \<Rightarrow> (case h e of (tr', r) \<Rightarrow> (tr @ tr', r))
      | (tr, Inr x) \<Rightarrow> (tr, Inr x))"

text \<open>The requests among the effects: the report attempts that reached the network.\<close>

fun is_post :: "effect \<Rightarrow> bool" where
  "is_post (HttpPost url auth t) = True"
| "is_post (Log l m) = False"

definition posts :: "effect list \<Rightarrow> effect list" where
  "posts tr = filter is_post tr"

section \<open>Configuration and the outside world\<close>

record config =
  api_username :: pystr
  api_password :: pystr
  api_endpoint :: pystr
  file_path :: pystr
  rpuid :: int
  timezone :: pystr
  log_level :: pystr

datatype tzinfo = UTC | Zone pystr

record datetime =
  year :: nat
  month :: nat
  day :: nat
  hour :: nat
  minute :: nat
  second :: nat

text \<open>
  The watched file as one call of \<^verbatim>\<open>parse_file\<close> finds it: absent
  (\<^verbatim>\<open>exists()\<close> is false), not readable (\<^verbatim>\<open>open\<close> or \<^verbatim>\<open>read\<close> raises an
  \<^verbatim>\<open>OSError\<close> with the given text), not UTF-8, or holding a text.
\<close>

datatype file_state =
    Missing
  | Unreadable pystr
  | Undecodable
  | Text pystr

datatype http_result =
    Response int
  | Raises request_exception

text \<open>
  What the libraries answer while one event (or the startup) is handled:
  \<^verbatim>\<open>time.time()\<close>, the watched file, \<^verbatim>\<open>pytz.timezone(name)\<close> (\<open>None\<close> for
  \<^verbatim>\<open>UnknownTimeZoneError\<close>), \<^verbatim>\<open>datetime.now(tz)\<close>, and \<^verbatim>\<open>session.post(url, timeout=30)\<close>
  (the status of the response, or the \<^verbatim>\<open>RequestException\<close> raised). Times are real
  numbers of seconds: the floats of \<^verbatim>\<open>time.time()\<close> are among them, and for clock
  readings from 1970 on the test \<^verbatim>\<open>current_time - self.last_modified < 1\<close> comes out
  in floating point as it does over the reals.
\<close>

record world =
  time_time :: real
  file_read :: file_state
  pytz_timezone :: "pystr \<Rightarrow> tzinfo option"
  datetime_now :: "tzinfo \<Rightarrow> datetime"
  session_post :: "pystr \<Rightarrow> http_result"

section \<open>FileParser: reading the file\<close>

definition parse_file :: "pystr \<Rightarrow> file_state \<Rightarrow> (pystr option \<times> pystr option) io" where
  "parse_file path f =
     (case f of
        Missing \<Rightarrow> raise_io (FileNotFoundError path)
      | Unreadable cause \<Rightarrow> raise_io (IOError path cause)
      | Undecodable \<Rightarrow> raise_io UnicodeDecodeError
      | Text raw \<Rightarrow>
          (let content = strip raw in
           if content = [] then bind_io (logging WARNING FileIsEmpty) (\<lambda>_. return_io (None, None))
           else return_io (extract_metadata content)))"

section \<open>RadioPlayerAPI\<close>

definition validate_metadata :: "pystr \<Rightarrow> pystr \<Rightarrow> bool io" where
  "validate_metadata artist title =
     (if artist = [] \<or> title = [] then
        bind_io (logging WARNING MissingArtistOrTitle) (\<lambda>_. return_io False)
      else if length (strip artist) = 0 \<or> length (strip title) = 0 then
        bind_io (logging WARNING EmptyAfterStripping) (\<lambda>_. return_io False)
      else return_io True)"

text \<open>\<^verbatim>\<open>str(n)\<close> for a natural number and for an integer.\<close>

fun decimal :: "nat \<Rightarrow> pystr" where
  "decimal n = (if n < 10 then [0x30 + n] else decimal (n div 10) @ [0x30 + n mod 10])"

declare decimal.simps [simp del]

definition str_int :: "int \<Rightarrow> pystr" where
  "str_int i = (if i < 0 then 0x2D # decimal (nat (- i)) else decimal (nat i))"

text \<open>
  \<^verbatim>\<open>strftime('%Y-%m-%dT%H:%M:%S')\<close>: two digits for every field but the year, which
  the C library prints in decimal without padding.
\<close>

definition two_digits :: "nat \<Rightarrow> pystr" where
  "two_digits n = (if n < 10 then 0x30 # decimal n else decimal n)"

definition strftime :: "datetime \<Rightarrow> pystr" where
  "strftime dt =
     decimal (year dt) @ py ''-'' @ two_digits (month dt) @ py ''-'' @ two_digits (day dt) @
     py ''T'' @ two_digits (hour dt) @ py '':'' @ two_digits (minute dt) @ py '':'' @
     two_digits (second dt)"

definition get_current_timestamp :: "config \<Rightarrow> world \<Rightarrow> pystr io" where
  "get_current_timestamp cfg w =
     (case pytz_timezone w (timezone cfg) of
        Some tz \<Rightarrow> return_io (strftime (datetime_now w tz))
      | None \<Rightarrow>
          bind_io (logging WARNING (UnknownTimezone (timezone cfg)))
            (\<lambda>_. return_io (strftime (datetime_now w UTC))))"

text \<open>
  \<^verbatim>\<open>urllib.parse.quote_plus\<close>: the string is encoded as UTF-8 (a lone surrogate raises
  \<^verbatim>\<open>UnicodeEncodeError\<close>), and every byte that is not a letter, a digit or one of
  \<^verbatim>\<open>_.-~\<close> becomes \<^verbatim>\<open>%XX\<close>; a space becomes \<^verbatim>\<open>+\<close>.
\<close>

definition utf8_char :: "nat \<Rightarrow> nat list option" where
  "utf8_char c =
     (if c < 0x80 then Some [c]
      else if c < 0x800 then Some [0xC0 + c div 0x40, 0x80 + c mod 0x40]
      else if 0xD800 \<le> c \<and> c \<le> 0xDFFF then None
      else if c < 0x10000 then
        Some [0xE0 + c div 0x1000, 0x80 + (c div 0x40) mod 0x40, 0x80 + c mod 0x40]
      else if c < 0x110000 then
        Some [0xF0 + c div 0x40000, 0x80 + (c div 0x1000) mod 0x40,
              0x80 + (c div 0x40) mod 0x40, 0x80 + c mod 0x40]
      else None)"

definition encode_utf8 :: "pystr \<Rightarrow> nat list option" where
  "encode_utf8 s = map_option concat (those (map utf8_char s))"

definition always_safe :: "nat \<Rightarrow> bool" where
  "always_safe b \<longleftrightarrow>
     (0x41 \<le> b \<and> b \<le> 0x5A) \<or> (0x61 \<le> b \<and> b \<le> 0x7A) \<or> (0x30 \<le> b \<and> b \<le> 0x39) \<or>
     b = 0x5F \<or> b = 0x2E \<or> b = 0x2D \<or> b = 0x7E"

definition hex_digit :: "nat \<Rightarrow> nat" where
  "hex_digit d = (if d < 10 then 0x30 + d else 0x37 + d)"

definition percent :: "nat \<Rightarrow> pystr" where
  "percent b = [0x25, hex_digit (b div 16), hex_digit (b mod 16)]"

definition quote :: "pystr \<Rightarrow> pystr \<Rightarrow> exn + pystr" where
  "quote s safe =
     (if s = [] then Inr []
      else case encode_utf8 s of
          None \<Rightarrow> Inl UnicodeEncodeError
        | Some bs \<Rightarrow>
            Inr (concat (map (\<lambda>b. if always_safe b \<or> b \<in> set safe then [b] else percent b) bs)))"

definition quote_plus :: "pystr \<Rightarrow> exn + pystr" where
  "quote_plus s =
     (if 0x20 \<notin> set s then quote s []
      else case quote s [0x20] of
          Inl e \<Rightarrow> Inl e
        | Inr q \<Rightarrow> Inr (map (\<lambda>c. if c = 0x20 then 0x2B else c) q))"

definition build_url :: "config \<Rightarrow> pystr \<Rightarrow> pystr \<Rightarrow> pystr \<Rightarrow> exn + pystr" where
  "build_url cfg artist title timestamp =
     (case quote_plus artist of
        Inl e \<Rightarrow> Inl e
      | Inr artist_encoded \<Rightarrow>
          (case quote_plus title of
             Inl e \<Rightarrow> Inl e
           | Inr title_encoded \<Rightarrow>
               Inr (api_endpoint cfg @ py ''?'' @
                    py ''rpuid='' @ str_int (rpuid cfg) @ py ''&'' @
                    py ''startTime='' @ timestamp @ py ''&'' @
                    py ''title='' @ title_encoded @ py ''&'' @
                    py ''artist='' @ artist_encoded)))"

text \<open>
  The request of \<^verbatim>\<open>post_now_playing\<close>: \<^verbatim>\<open>session.post\<close> raises or answers, and
  \<^verbatim>\<open>raise_for_status\<close> raises \<^verbatim>\<open>HTTPError\<close> for a status from 400 to 599. Every
  \<^verbatim>\<open>RequestException\<close> is caught there.
\<close>

definition send_request :: "config \<Rightarrow> world \<Rightarrow> pystr \<Rightarrow> pystr \<Rightarrow> pystr \<Rightarrow> bool io" where
  "send_request cfg w url artist title =
     bind_io (logging DEBUG (PostRequest url)) (\<lambda>_.
     bind_io ([HttpPost url (api_username cfg, api_password cfg) 30], Inr ()) (\<lambda>_.
       case session_post w url of
         Raises e \<Rightarrow> bind_io (logging ERROR (ApiRequestFailed e)) (\<lambda>_. return_io False)
       | Response status \<Rightarrow>
           if 400 \<le> status \<and> status < 600 then
             bind_io (logging ERROR (ApiRequestFailed (HTTPError status))) (\<lambda>_. return_io False)
           else
             bind_io (logging INFO (SuccessfullyPosted artist title)) (\<lambda>_. return_io True)))"

definition post_now_playing :: "config \<Rightarrow> world \<Rightarrow> pystr \<Rightarrow> pystr \<Rightarrow> bool io" where
  "post_now_playing cfg w artist title =
     bind_io (validate_metadata artist title) (\<lambda>valid.
       if \<not> valid then return_io False
       else
         bind_io (get_current_timestamp cfg w) (\<lambda>timestamp.
         bind_io ([], build_url cfg artist title timestamp) (\<lambda>url.
           send_request cfg w url artist title)))"

section \<open>FileChangeHandler\<close>

record event =
  is_directory :: bool
  src_path :: pystr

record handler =
  file_path :: pystr
  api_client :: config
  last_modified :: real

definition FileChangeHandler :: "pystr \<Rightarrow> config \<Rightarrow> handler" where
  "FileChangeHandler path client = \<lparr>file_path = path, api_client = client, last_modified = 0\<rparr>"

text \<open>\<^verbatim>\<open>if artist and title\<close>: a value counts when it is neither \<^verbatim>\<open>None\<close> nor empty.\<close>

definition truthy :: "pystr option \<Rightarrow> bool" where
  "truthy v = (case v of None \<Rightarrow> False | Some s \<Rightarrow> s \<noteq> [])"

definition process_file_change :: "handler \<Rightarrow> world \<Rightarrow> unit io" where
  "process_file_change h w =
     try_except
       (bind_io (logging INFO (FileChanged (handler.file_path h))) (\<lambda>_.
        bind_io (parse_file (handler.file_path h) (file_read w)) (\<lambda>(artist, title).
          if truthy artist \<and> truthy title then
            bind_io (logging INFO (Extracted (the artist) (the title))) (\<lambda>_.
            bind_io (post_now_playing (api_client h) w (the artist) (the title)) (\<lambda>_.
              return_io ()))
          else logging WARNING CouldNotExtract)))
       (\<lambda>e. logging ERROR (ErrorProcessingFileChange e))"

text \<open>
  \<^verbatim>\<open>on_modified\<close> returns the handler as the call leaves it, and what the call did.
  \<open>src_path\<close> stands for \<^verbatim>\<open>Path(event.src_path)\<close>.
\<close>

definition on_modified :: "handler \<Rightarrow> event \<Rightarrow> world \<Rightarrow> handler \<times> unit io" where
  "on_modified h ev w =
     (if is_directory ev then (h, return_io ())
      else if src_path ev \<noteq> handler.file_path h then (h, return_io ())
      else
        let current_time = time_time w in
        if current_time - last_modified h < 1 then (h, return_io ())
        else
          let h' = h\<lparr>last_modified := current_time\<rparr> in
          (h', process_file_change h' w))"

text \<open>
  The observer hands the events to \<^verbatim>\<open>on_modified\<close> one after the other, each with the
  world as it is then; an exception that leaves \<^verbatim>\<open>on_modified\<close> ends the dispatching.
\<close>

fun dispatch :: "handler \<Rightarrow> (event \<times> world) list \<Rightarrow> handler \<times> unit io" where
  "dispatch h [] = (h, return_io ())"
| "dispatch h ((ev, w) # rest) =
     (case on_modified h ev w of
        (h', (tr, Inl e)) \<Rightarrow> (h', (tr, Inl e))
      | (h', (tr, Inr u)) \<Rightarrow>
          (case dispatch h' rest of (h'', (tr', r)) \<Rightarrow> (h'', (tr @ tr', r))))"

text \<open>The events that were processed: the calls of \<^verbatim>\<open>_process_file_change\<close>.\<close>

fun is_file_changed :: "effect \<Rightarrow> bool" where
  "is_file_changed (Log l (FileChanged p)) = True"
| "is_file_changed e = False"

definition processed :: "effect list \<Rightarrow> nat" where
  "processed tr = length (filter is_file_changed tr)"

section \<open>RadioPlayerMonitor\<close>

definition process_initial_file :: "config \<Rightarrow> world \<Rightarrow> unit io" where
  "process_initial_file cfg w =
     try_except
       (bind_io (parse_file (config.file_path cfg) (file_read w)) (\<lambda>(artist, title).
          if truthy artist \<and> truthy title then
            bind_io (logging INFO (InitialFileContent (the artist) (the title))) (\<lambda>_.
            bind_io (post_now_playing cfg w (the artist) (the title)) (\<lambda>_.
              return_io ()))
          else logging WARNING NoValidInitial))
       (\<lambda>e. logging ERROR (ErrorProcessingInitialFile e))"

text \<open>
  \<^verbatim>\<open>start_monitoring\<close> up to the point where the observer runs: \<open>exists\<close> is what
  \<^verbatim>\<open>file_path.exists()\<close> answers, and the value is the handler given to the observer.
\<close>

definition start_monitoring :: "config \<Rightarrow> bool \<Rightarrow> world \<Rightarrow> handler io" where
  "start_monitoring cfg exists w =
     try_except
       (if \<not> exists then raise_io (FileNotFoundError (config.file_path cfg))
        else
          bind_io (process_initial_file cfg w) (\<lambda>_.
          bind_io (logging INFO (StartedMonitoring (config.file_path cfg))) (\<lambda>_.
            return_io (FileChangeHandler (config.file_path cfg) cfg))))
       (\<lambda>e. bind_io (logging ERROR (FailedToStartMonitoring e)) (\<lambda>_. raise_io e))"

section \<open>Notions used in the statements\<close>

text \<open>The trimmed lines of a text that match a pattern, in the order of the text.\<close>

definition matching :: "(pystr \<Rightarrow> pystr option) \<Rightarrow> pystr \<Rightarrow> pystr list" where
  "matching pat content = filter (\<lambda>l. pat l \<noteq> None) (map strip (splitlines content))"

text \<open>The trimmed group of the last line that matches, if a line does.\<close>

definition last_group :: "(pystr \<Rightarrow> pystr option) \<Rightarrow> pystr list \<Rightarrow> pystr option" where
  "last_group pat ls =
     (case filter (\<lambda>l. pat l \<noteq> None) ls of
        [] \<Rightarrow> None
      | m # ms \<Rightarrow> map_option strip (pat (last (m # ms))))"

text \<open>An event that passes the two filters of \<^verbatim>\<open>on_modified\<close>: a file, at the watched path.\<close>

definition eligible :: "handler \<Rightarrow> event \<Rightarrow> bool" where
  "eligible h ev \<longleftrightarrow> \<not> is_directory ev \<and> src_path ev = handler.file_path h"

text \<open>
  The debounce rule in the words of the specification: given the time of the last
  accepted event and the times of the events that follow, an event closer than one
  second to the last accepted one is discarded, and any other is accepted and becomes
  the last accepted one.
\<close>

fun accepted_times :: "real \<Rightarrow> real list \<Rightarrow> real list" where
  "accepted_times prev [] = []"
| "accepted_times prev (t # ts) =
     (if t - prev < 1 then accepted_times prev ts else t # accepted_times t ts)"

text \<open>The file content of the end-to-end example.\<close>

definition queen_text :: pystr where
  "queen_text = py ''Artist: Queen'' @ [0x0A] @ py ''Title: Bohemian Rhapsody'' @ [0x0A]"

text \<open>
  The pattern \<^verbatim>\<open>\d{4}-\d{2}-\d{2}T\d{2}:\d{2}:\d{2}\<close>, as a list of character classes that a
  string has to match from its first character to its last.
\<close>

datatype cls = Digit | Lit nat

definition is_digit :: "nat \<Rightarrow> bool" where
  "is_digit c \<longleftrightarrow> 0x30 \<le> c \<and> c \<le> 0x39"

fun full_match :: "cls list \<Rightarrow> pystr \<Rightarrow> bool" where
  "full_match [] s = (s = [])"
| "full_match (p # ps) [] = False"
| "full_match (Digit # ps) (c # cs) = (is_digit c \<and> full_match ps cs)"
| "full_match (Lit x # ps) (c # cs) = (c = x \<and> full_match ps cs)"

definition timestamp_pattern :: "cls list" where
  "timestamp_pattern =
     [Digit, Digit, Digit, Digit, Lit 0x2D, Digit, Digit, Lit 0x2D, Digit, Digit, Lit 0x54,
      Digit, Digit, Lit 0x3A, Digit, Digit, Lit 0x3A, Digit, Digit]"

text \<open>
  A clock reading: the fields of a \<^verbatim>\<open>datetime\<close> in their ranges, in a year of four
  digits.
\<close>

definition valid_datetime :: "datetime \<Rightarrow> bool" where
  "valid_datetime dt \<longleftrightarrow>
     1000 \<le> year dt \<and> year dt \<le> 9999 \<and> 1 \<le> month dt \<and> month dt \<le> 12 \<and>
     1 \<le> day dt \<and> day dt \<le> 31 \<and> hour dt \<le> 23 \<and> minute dt \<le> 59 \<and> second dt \<le> 59"

text \<open>A configuration and a world to evaluate the program on.\<close>

definition demo_config :: config where
  "demo_config =
     \<lparr>api_username = py ''user'', api_password = py ''key'',
      api_endpoint = py ''https://example.org/np'', file_path = py ''/tmp/now.txt'',
      rpuid = 42, timezone = py ''Europe/London'', log_level = py ''INFO''\<rparr>"

definition demo_world :: "real \<Rightarrow> file_state \<Rightarrow> http_result \<Rightarrow> world" where
  "demo_world t f r =
     \<lparr>time_time = t, file_read = f,
      pytz_timezone = (\<lambda>name. if name = py ''UTC'' then Some UTC
                               else if name = py ''Europe/London'' then Some (Zone name)
                               else None),
      datetime_now = (\<lambda>tz. \<lparr>year = 2026, month = 11, day = 4, hour = 12, minute = 8, second = 5\<rparr>),
      session_post = (\<lambda>url. r)\<rparr>"

definition demo_request :: pystr where
  "demo_request =
     py ''https://example.org/np?rpuid=42&startTime=2026-11-04T12:08:05&title=Bohemian+Rhapsody&artist=Queen''"

definition demo_event :: event where
  "demo_event = \<lparr>is_directory = False, src_path = py ''/tmp/now.txt''\<rparr>"

definition demo_handler :: handler where
  "demo_handler = FileChangeHandler (py ''/tmp/now.txt'') demo_config"

definition demo_text :: pystr where
  "demo_text =
     py ''Artist: Abba'' @ [0x0A] @ py ''TITLE: Waterloo'' @ [0x0D, 0x0A] @
     py ''artist:   Queen '' @ [0x0A] @ py ''now playing'' @ [0x0A] @
     py ''title: Bohemian Rhapsody''"

section \<open>Auxiliary facts\<close>

lemmas io_defs = return_io_def raise_io_def logging_def bind_io_def try_except_def

lemmas str_defs = py_def strip_def lstrip_def rstrip_def isspace_def

lemmas url_defs = build_url_def quote_plus_def quote_def encode_utf8_def utf8_char_def
  always_safe_def percent_def hex_digit_def str_int_def

lemmas time_defs = get_current_timestamp_def strftime_def two_digits_def

lemma strip_Nil: "strip [] = []"
  by (simp add: strip_def lstrip_def rstrip_def)

lemma validate_blank:
  "strip artist = [] \<or> strip title = [] \<Longrightarrow>
   validate_metadata artist title = ([Log WARNING MissingArtistOrTitle], Inr False) \<or>
   validate_metadata artist title = ([Log WARNING EmptyAfterStripping], Inr False)"
  by (auto simp: validate_metadata_def io_defs)

lemma validate_ok:
  "strip artist \<noteq> [] \<Longrightarrow> strip title \<noteq> [] \<Longrightarrow> validate_metadata artist title = ([], Inr True)"
  by (auto simp: validate_metadata_def io_defs strip_Nil)

lemma demo_validate: "validate_metadata (py ''Queen'') (py ''Bohemian Rhapsody'') = ([], Inr True)"
  by (simp add: validate_metadata_def io_defs str_defs)

lemma demo_timestamp:
  "get_current_timestamp demo_config (demo_world t f r) = ([], Inr (py ''2026-11-04T12:08:05''))"
  by (simp add: time_defs demo_config_def demo_world_def io_defs decimal.simps py_def)

lemma demo_quote:
  "quote_plus (py ''Queen'') = Inr (py ''Queen'')"
  "quote_plus (py ''Bohemian Rhapsody'') = Inr (py ''Bohemian+Rhapsody'')"
  by (simp_all add: quote_plus_def quote_def encode_utf8_def utf8_char_def always_safe_def
      percent_def hex_digit_def py_def)

lemma demo_url:
  "build_url demo_config (py ''Queen'') (py ''Bohemian Rhapsody'') (py ''2026-11-04T12:08:05'') =
     Inr demo_request"
  by (simp add: url_defs demo_config_def demo_request_def decimal.simps py_def)

lemma demo_post_304:
  "post_now_playing demo_config (demo_world t f (Response 304)) (py ''Queen'') (py ''Bohemian Rhapsody'') =
     ([Log DEBUG (PostRequest demo_request),
       HttpPost demo_request (py ''user'', py ''key'') 30,
       Log INFO (SuccessfullyPosted (py ''Queen'') (py ''Bohemian Rhapsody''))],
      Inr True)"
  by (simp add: post_now_playing_def send_request_def demo_validate demo_timestamp demo_url io_defs)
     (simp add: demo_config_def demo_world_def io_defs)

lemmas match_defs = ARTIST_PATTERN_def TITLE_PATTERN_def pattern_match_def dot_plus_end_def
  lit_ignorecase_def is_linebreak_def

lemma artist_excludes_title: "ARTIST_PATTERN l = Some g \<Longrightarrow> TITLE_PATTERN l = None"
  by (cases l) (auto simp: ARTIST_PATTERN_def TITLE_PATTERN_def pattern_match_def py_def
      lit_ignorecase_def split: option.splits if_splits)

lemma pattern_Nil: "ARTIST_PATTERN [] = None" "TITLE_PATTERN [] = None"
  by (simp_all add: ARTIST_PATTERN_def TITLE_PATTERN_def pattern_match_def py_def)

lemma last_group_Nil: "last_group pat [] = None"
  by (simp add: last_group_def)

lemma last_group_Cons:
  "last_group pat (x # xs) =
     (case last_group pat xs of
        Some v \<Rightarrow> Some v
      | None \<Rightarrow> map_option strip (pat x))"
proof (cases "filter (\<lambda>l. pat l \<noteq> None) xs")
  case Nil
  then show ?thesis by (cases "pat x") (auto simp: last_group_def)
next
  case (Cons m ms)
  then have "last (m # ms) \<in> set (filter (\<lambda>l. pat l \<noteq> None) xs)"
    by (metis last_in_set list.distinct(1))
  then obtain g where g: "pat (last (m # ms)) = Some g" by auto
  with Cons show ?thesis
    by (cases "pat x") (auto simp: last_group_def)
qed

lemma extract_loop_step:
  "extract_loop (a, t) (l # ls) =
     (case ARTIST_PATTERN (strip l) of
        Some g \<Rightarrow> extract_loop (Some (strip g), t) ls
      | None \<Rightarrow>
          (case TITLE_PATTERN (strip l) of
             Some g \<Rightarrow> extract_loop (a, Some (strip g)) ls
           | None \<Rightarrow> extract_loop (a, t) ls))"
  by (simp add: Let_def pattern_Nil)

lemma extract_loop_last_group:
  "extract_loop (a, t) ls =
     (case last_group ARTIST_PATTERN (map strip ls) of None \<Rightarrow> a | Some v \<Rightarrow> Some v,
      case last_group TITLE_PATTERN (map strip ls) of None \<Rightarrow> t | Some v \<Rightarrow> Some v)"
proof (induction ls arbitrary: a t)
  case Nil
  then show ?case by (simp add: last_group_Nil)
next
  case (Cons l ls)
  show ?case
  proof (cases "ARTIST_PATTERN (strip l)")
    case (Some g)
    with artist_excludes_title [OF Some] Cons show ?thesis
      by (simp del: extract_loop.simps add: extract_loop_step last_group_Cons split: option.splits)
  next
    case None
    with Cons show ?thesis
      by (cases "TITLE_PATTERN (strip l)")
         (simp_all del: extract_loop.simps add: extract_loop_step last_group_Cons split: option.splits)
  qed
qed

lemma extract_metadata_last_group:
  "extract_metadata content =
     (last_group ARTIST_PATTERN (map strip (splitlines content)),
      last_group TITLE_PATTERN (map strip (splitlines content)))"
  by (simp add: extract_metadata_def extract_loop_last_group split: option.splits)

lemma last_group_matching:
  "last_group pat (map strip (splitlines content)) =
     (if matching pat content = [] then None
      else map_option strip (pat (last (matching pat content))))"
  by (simp add: last_group_def matching_def split: list.splits)

lemma matching_last_Some:
  assumes "matching pat content \<noteq> []"
  shows "\<exists>g. pat (last (matching pat content)) = Some g"
proof -
  from assms have "last (matching pat content) \<in> set (matching pat content)"
    by (rule last_in_set)
  then show ?thesis by (auto simp: matching_def)
qed

lemma matching_Nil: "matching pat [] = []"
  by (simp add: matching_def)

lemma parse_file_Text:
  "strip raw \<noteq> [] \<Longrightarrow> parse_file path (Text raw) = ([], Inr (extract_metadata (strip raw)))"
  by (simp add: parse_file_def io_defs)

lemma demo_text_lines:
  "map strip (splitlines demo_text) =
     [py ''Artist: Abba'', py ''TITLE: Waterloo'', py ''artist:   Queen'', py ''now playing'',
      py ''title: Bohemian Rhapsody'']"
  by (simp add: demo_text_def str_defs is_linebreak_def)

lemma demo_text_matching:
  "matching ARTIST_PATTERN demo_text = [py ''Artist: Abba'', py ''artist:   Queen'']"
  "matching TITLE_PATTERN demo_text = [py ''TITLE: Waterloo'', py ''title: Bohemian Rhapsody'']"
  by (simp_all add: matching_def demo_text_lines) (simp_all add: match_defs py_def)

lemma demo_text_groups:
  "ARTIST_PATTERN (py ''artist:   Queen'') = Some (py ''  Queen'')"
  "TITLE_PATTERN (py ''title: Bohemian Rhapsody'') = Some (py ''Bohemian Rhapsody'')"
  by (simp_all add: match_defs py_def)

lemma match_literals_iff:
  "match_literals ps s = Some rest \<longleftrightarrow> (\<exists>pre. s = pre @ rest \<and> list_all2 lit_ignorecase ps pre)"
proof (induction ps arbitrary: s)
  case Nil
  then show ?case by auto
next
  case (Cons p ps)
  show ?case
  proof (cases s)
    case Nil
    then show ?thesis by (auto simp: list_all2_Cons1)
  next
    case (Cons c cs)
    with Cons.IH [of cs] show ?thesis
      by (auto simp: list_all2_Cons1)
  qed
qed

lemma dot_plus_end_iff:
  "dot_plus_end s = Some g \<longleftrightarrow> g \<noteq> [] \<and> 10 \<notin> set g \<and> (s = g \<or> s = g @ [10])"
proof
  assume "dot_plus_end s = Some g"
  then have g: "g = takeWhile (\<lambda>x. x \<noteq> 10) s" and ne: "g \<noteq> []"
    and r: "dropWhile (\<lambda>x. x \<noteq> 10) s = [] \<or> dropWhile (\<lambda>x. x \<noteq> 10) s = [10]"
    by (auto simp: dot_plus_end_def Let_def split: if_splits)
  have s: "s = g @ dropWhile (\<lambda>x. x \<noteq> 10) s" by (simp add: g)
  from r have "s = g \<or> s = g @ [10]"
  proof
    assume "dropWhile (\<lambda>x. x \<noteq> 10) s = []"
    with s have "s = g" by (metis append_Nil2)
    then show ?thesis ..
  next
    assume "dropWhile (\<lambda>x. x \<noteq> 10) s = [10]"
    with s have "s = g @ [10]" by metis
    then show ?thesis ..
  qed
  moreover have "10 \<notin> set g" using g by (auto dest: set_takeWhileD)
  ultimately show "g \<noteq> [] \<and> 10 \<notin> set g \<and> (s = g \<or> s = g @ [10])"
    using ne by blast
next
  assume a: "g \<noteq> [] \<and> 10 \<notin> set g \<and> (s = g \<or> s = g @ [10])"
  then have t: "\<forall>x\<in>set g. x \<noteq> 10"
    by auto
  then have tk: "takeWhile (\<lambda>x. x \<noteq> 10) g = g" and dk: "dropWhile (\<lambda>x. x \<noteq> 10) g = []"
    by simp_all
  from a have "s = g \<or> s = g @ [10]" by simp
  then show "dot_plus_end s = Some g"
  proof
    assume "s = g" with a show ?thesis by (simp add: dot_plus_end_def Let_def tk dk)
  next
    assume "s = g @ [10]"
    moreover have "takeWhile (\<lambda>x. x \<noteq> 10) (g @ [10]) = g" "dropWhile (\<lambda>x. x \<noteq> 10) (g @ [10]) = [10]"
      using t by simp_all
    ultimately show ?thesis using a by (simp add: dot_plus_end_def Let_def)
  qed
qed

lemma colon_space: "list_all2 lit_ignorecase (py '': '') vs \<longleftrightarrow> vs = py '': ''"
  by (auto simp: py_def list_all2_Cons1 lit_ignorecase_def)

lemma pattern_match_iff:
  "pattern_match (lab @ py '': '') line = Some g \<longleftrightarrow>
     (\<exists>pre tail. line = pre @ py '': '' @ g @ tail \<and> list_all2 lit_ignorecase lab pre \<and>
        g \<noteq> [] \<and> 10 \<notin> set g \<and> (tail = [] \<or> tail = [10]))"
proof
  assume "pattern_match (lab @ py '': '') line = Some g"
  then obtain rest where m: "match_literals (lab @ py '': '') line = Some rest"
    and d: "dot_plus_end rest = Some g"
    by (auto simp: pattern_match_def split: option.splits)
  from m obtain pre' where l: "line = pre' @ rest" and a: "list_all2 lit_ignorecase (lab @ py '': '') pre'"
    by (auto simp: match_literals_iff)
  from a obtain pre vs where p: "pre' = pre @ vs" "list_all2 lit_ignorecase lab pre"
    "list_all2 lit_ignorecase (py '': '') vs"
    by (auto simp: list_all2_append1)
  from p(3) have vs: "vs = py '': ''" by (simp add: colon_space)
  from d have g: "g \<noteq> []" "10 \<notin> set g" "rest = g \<or> rest = g @ [10]"
    by (simp_all add: dot_plus_end_iff)
  define tail where "tail = (if rest = g then [] else [10::nat])"
  with g(3) have "rest = g @ tail" "tail = [] \<or> tail = [10]" by auto
  with l p vs g have "line = pre @ py '': '' @ g @ tail \<and> list_all2 lit_ignorecase lab pre \<and>
        g \<noteq> [] \<and> 10 \<notin> set g \<and> (tail = [] \<or> tail = [10])"
    by simp
  then show "\<exists>pre tail. line = pre @ py '': '' @ g @ tail \<and> list_all2 lit_ignorecase lab pre \<and>
        g \<noteq> [] \<and> 10 \<notin> set g \<and> (tail = [] \<or> tail = [10])"
    by blast
next
  assume "\<exists>pre tail. line = pre @ py '': '' @ g @ tail \<and> list_all2 lit_ignorecase lab pre \<and>
        g \<noteq> [] \<and> 10 \<notin> set g \<and> (tail = [] \<or> tail = [10])"
  then obtain pre tail where l: "line = pre @ py '': '' @ g @ tail"
    and a: "list_all2 lit_ignorecase lab pre"
    and g: "g \<noteq> []" "10 \<notin> set g" "tail = [] \<or> tail = [10]"
    by blast
  have "list_all2 lit_ignorecase (lab @ py '': '') (pre @ py '': '')"
    using a by (simp add: list_all2_appendI colon_space)
  then have "match_literals (lab @ py '': '') line = Some (g @ tail)"
    unfolding match_literals_iff l by (intro exI [of _ "pre @ py '': ''"]) simp
  moreover have "dot_plus_end (g @ tail) = Some g"
    using g by (auto simp: dot_plus_end_iff)
  ultimately show "pattern_match (lab @ py '': '') line = Some g"
    by (simp add: pattern_match_def)
qed

lemma splitlines_no_linebreak:
  "l \<in> set (splitlines s) \<Longrightarrow> c \<in> set l \<Longrightarrow> \<not> is_linebreak c"
proof (induction s rule: splitlines.induct)
  case 1
  then show ?case by simp
next
  case (2 x xs)
  from "2.prems"(1) have "l = takeWhile (\<lambda>x. \<not> is_linebreak x) (x # xs) \<or>
      l \<in> set (splitlines (skip_break (dropWhile (\<lambda>x. \<not> is_linebreak x) (x # xs))))"
    by (simp del: takeWhile.simps dropWhile.simps)
  then show ?case
  proof
    assume "l = takeWhile (\<lambda>x. \<not> is_linebreak x) (x # xs)"
    with "2.prems"(2) show ?thesis by (auto dest: set_takeWhileD simp del: takeWhile.simps)
  next
    assume "l \<in> set (splitlines (skip_break (dropWhile (\<lambda>x. \<not> is_linebreak x) (x # xs))))"
    with "2.IH" "2.prems"(2) show ?thesis by blast
  qed
qed

lemma set_strip: "set (strip s) \<subseteq> set s"
proof -
  have "set (strip s) \<subseteq> set (dropWhile isspace s)"
    unfolding strip_def rstrip_def lstrip_def
    by (metis set_dropWhileD set_rev subsetI)
  also have "\<dots> \<subseteq> set s" by (auto dest: set_dropWhileD)
  finally show ?thesis .
qed

lemma line_no_newline:
  assumes "l \<in> set (splitlines content)"
  shows "10 \<notin> set (strip l)"
proof
  assume "10 \<in> set (strip l)"
  with set_strip have "10 \<in> set l" by blast
  with splitlines_no_linebreak [OF assms] have "\<not> is_linebreak 10" by blast
  then show False by (simp add: is_linebreak_def)
qed

lemma pattern_match_line:
  assumes "10 \<notin> set line"
  shows "pattern_match (lab @ py '': '') line = Some g \<longleftrightarrow>
     (\<exists>pre. line = pre @ py '': '' @ g \<and> list_all2 lit_ignorecase lab pre \<and> g \<noteq> [])"
proof
  assume "pattern_match (lab @ py '': '') line = Some g"
  then obtain pre tail where l: "line = pre @ py '': '' @ g @ tail"
    and a: "list_all2 lit_ignorecase lab pre" and g: "g \<noteq> []" and t: "tail = [] \<or> tail = [10]"
    unfolding pattern_match_iff by blast
  from l assms have "tail \<noteq> [10]" by auto
  with t have "tail = []" by simp
  with l a g show "\<exists>pre. line = pre @ py '': '' @ g \<and> list_all2 lit_ignorecase lab pre \<and> g \<noteq> []"
    by auto
next
  assume "\<exists>pre. line = pre @ py '': '' @ g \<and> list_all2 lit_ignorecase lab pre \<and> g \<noteq> []"
  then obtain pre where l: "line = pre @ py '': '' @ g" and a: "list_all2 lit_ignorecase lab pre"
    and g: "g \<noteq> []" by blast
  from l assms have "10 \<notin> set g" by auto
  with l a g have "\<exists>pre tail. line = pre @ py '': '' @ g @ tail \<and> list_all2 lit_ignorecase lab pre \<and>
        g \<noteq> [] \<and> 10 \<notin> set g \<and> (tail = [] \<or> tail = [10])"
    by (intro exI [of _ pre] exI [of _ "[]"]) simp
  then show "pattern_match (lab @ py '': '') line = Some g"
    unfolding pattern_match_iff .
qed

lemma label_split:
  "py ''Artist: '' = py ''Artist'' @ py '': ''" "py ''Title: '' = py ''Title'' @ py '': ''"
  by (simp_all add: py_def)

lemma processed_append: "processed (xs @ ys) = processed xs + processed ys"
  by (simp add: processed_def)

lemma processed_post: "processed (fst (post_now_playing cfg w a t)) = 0"
  by (auto simp: post_now_playing_def validate_metadata_def get_current_timestamp_def
      send_request_def io_defs processed_def
      split: sum.splits option.splits http_result.splits prod.splits)

lemma processed_parse: "processed (fst (parse_file p f)) = 0"
  by (auto simp: parse_file_def io_defs processed_def Let_def split: file_state.splits)

lemma process_file_change_eq:
  "process_file_change h w =
     (case parse_file (handler.file_path h) (file_read w) of
        (tr, Inl e) \<Rightarrow>
          (Log INFO (FileChanged (handler.file_path h)) # tr @
             [Log ERROR (ErrorProcessingFileChange e)], Inr ())
      | (tr, Inr (a, t)) \<Rightarrow>
          if truthy a \<and> truthy t then
            (case post_now_playing (api_client h) w (the a) (the t) of
               (tr', Inl e) \<Rightarrow>
                 (Log INFO (FileChanged (handler.file_path h)) # tr @
                    Log INFO (Extracted (the a) (the t)) # tr' @
                    [Log ERROR (ErrorProcessingFileChange e)], Inr ())
             | (tr', Inr b) \<Rightarrow>
                 (Log INFO (FileChanged (handler.file_path h)) # tr @
                    Log INFO (Extracted (the a) (the t)) # tr', Inr ()))
          else
            (Log INFO (FileChanged (handler.file_path h)) # tr @
               [Log WARNING CouldNotExtract], Inr ()))"
  by (auto simp: process_file_change_def io_defs split: prod.splits sum.splits)

lemma process_file_change_returns: "snd (process_file_change h w) = Inr ()"
  by (auto simp: process_file_change_eq split: prod.splits sum.splits)

lemma processed_process_file_change: "processed (fst (process_file_change h w)) = 1"
proof -
  obtain tr r where p: "parse_file (handler.file_path h) (file_read w) = (tr, r)"
    by (cases "parse_file (handler.file_path h) (file_read w)")
  with processed_parse [of "handler.file_path h" "file_read w"] have tr: "processed tr = 0"
    by simp
  show ?thesis
  proof (cases r)
    case (Inl e)
    with p tr show ?thesis
      by (simp add: process_file_change_eq processed_def)
  next
    case (Inr pr)
    obtain a t where at: "pr = (a, t)" by (cases pr)
    obtain tr' r' where q: "post_now_playing (api_client h) w (the a) (the t) = (tr', r')"
      by (cases "post_now_playing (api_client h) w (the a) (the t)")
    with processed_post [of "api_client h" w "the a" "the t"] have tr': "processed tr' = 0"
      by simp
    from p Inr at q tr tr' show ?thesis
      by (cases r') (simp_all add: process_file_change_eq processed_def)
  qed
qed

lemma on_modified_discard:
  "eligible h ev \<Longrightarrow> time_time w - last_modified h < 1 \<Longrightarrow> on_modified h ev w = (h, ([], Inr ()))"
  by (simp add: on_modified_def eligible_def io_defs)

lemma on_modified_accept:
  "eligible h ev \<Longrightarrow> \<not> time_time w - last_modified h < 1 \<Longrightarrow>
   on_modified h ev w =
     (h\<lparr>last_modified := time_time w\<rparr>, process_file_change (h\<lparr>last_modified := time_time w\<rparr>) w)"
  by (simp add: on_modified_def eligible_def io_defs Let_def)

lemma eligible_update: "eligible (h\<lparr>last_modified := t\<rparr>) ev = eligible h ev"
  by (simp add: eligible_def)

lemma dispatch_processed:
  "\<forall>(ev, w) \<in> set evs. eligible h ev \<Longrightarrow>
   processed (fst (snd (dispatch h evs))) =
     length (accepted_times (last_modified h) (map (\<lambda>(ev, w). time_time w) evs))"
proof (induction evs arbitrary: h)
  case Nil
  then show ?case by (simp add: io_defs processed_def)
next
  case (Cons x evs)
  obtain ev w where x: "x = (ev, w)" by (cases x)
  from Cons.prems x have el: "eligible h ev" and rest: "\<forall>(ev, w) \<in> set evs. eligible h ev"
    by auto
  show ?case
  proof (cases "time_time w - last_modified h < 1")
    case True
    obtain h2 tr2 r2 where d: "dispatch h evs = (h2, tr2, r2)"
      by (cases "dispatch h evs") auto
    with Cons.IH [OF rest] True el x show ?thesis
      by (simp add: on_modified_discard)
  next
    case False
    let ?h = "h\<lparr>last_modified := time_time w\<rparr>"
    from rest have "\<forall>(ev, w) \<in> set evs. eligible ?h ev"
      by (simp add: eligible_update)
    from Cons.IH [OF this] have ih: "processed (fst (snd (dispatch ?h evs))) =
        length (accepted_times (time_time w) (map (\<lambda>(ev, w). time_time w) evs))"
      by simp
    obtain tr where p: "process_file_change ?h w = (tr, Inr ())"
      using process_file_change_returns [of ?h w] by (cases "process_file_change ?h w") auto
    with processed_process_file_change [of ?h w] have tr: "processed tr = 1" by simp
    obtain h2 tr2 r2 where d: "dispatch ?h evs = (h2, tr2, r2)"
      by (cases "dispatch ?h evs") auto
    with ih have "processed tr2 =
        length (accepted_times (time_time w) (map (\<lambda>(ev, w). time_time w) evs))"
      by simp
    with False el x p tr d show ?thesis
      by (simp add: on_modified_accept processed_append)
  qed
qed

lemma on_modified_returns: "snd (snd (on_modified h ev w)) = Inr ()"
  by (simp add: on_modified_def Let_def io_defs process_file_change_returns)

lemma dispatch_returns: "snd (snd (dispatch h evs)) = Inr ()"
proof (induction evs arbitrary: h)
  case Nil
  then show ?case by (simp add: io_defs)
next
  case (Cons x evs)
  obtain ev w where x: "x = (ev, w)" by (cases x)
  obtain h1 tr1 where o: "on_modified h ev w = (h1, tr1, Inr ())"
    using on_modified_returns [of h ev w] by (cases "on_modified h ev w") auto
  obtain h2 tr2 where d: "dispatch h1 evs = (h2, tr2, Inr ())"
    using Cons.IH [of h1] by (cases "dispatch h1 evs") auto
  from x o d show ?case by simp
qed

lemma dispatch_Cons:
  "dispatch h ((ev, w) # rest) =
     (fst (dispatch (fst (on_modified h ev w)) rest),
      fst (snd (on_modified h ev w)) @ fst (snd (dispatch (fst (on_modified h ev w)) rest)),
      Inr ())"
proof -
  obtain h1 tr1 where o: "on_modified h ev w = (h1, tr1, Inr ())"
    using on_modified_returns [of h ev w] by (cases "on_modified h ev w") auto
  obtain h2 tr2 where d: "dispatch h1 rest = (h2, tr2, Inr ())"
    using dispatch_returns [of h1 rest] by (cases "dispatch h1 rest") auto
  from o d show ?thesis by simp
qed

lemma demo_eligible: "eligible (demo_handler\<lparr>last_modified := t\<rparr>) demo_event" "eligible demo_handler demo_event"
  by (simp_all add: eligible_def demo_handler_def demo_event_def FileChangeHandler_def)

lemma demo_missing:
  "process_file_change (demo_handler\<lparr>last_modified := t\<rparr>) (demo_world t' Missing r) =
     ([Log INFO (FileChanged (py ''/tmp/now.txt'')),
       Log ERROR (ErrorProcessingFileChange (FileNotFoundError (py ''/tmp/now.txt'')))], Inr ())"
  by (simp add: process_file_change_eq parse_file_def io_defs demo_handler_def demo_world_def
      FileChangeHandler_def)

lemma decimal_1: "n < 10 \<Longrightarrow> decimal n = [0x30 + n]"
  by (simp add: decimal.simps)

lemma decimal_2: "10 \<le> n \<Longrightarrow> n < 100 \<Longrightarrow> decimal n = [0x30 + n div 10, 0x30 + n mod 10]"
  by (subst decimal.simps) (simp add: decimal_1)

lemma decimal_3:
  "100 \<le> n \<Longrightarrow> n < 1000 \<Longrightarrow>
   decimal n = [0x30 + n div 100, 0x30 + n div 10 mod 10, 0x30 + n mod 10]"
  by (subst decimal.simps) (simp add: decimal_2 div_mult2_eq [symmetric])

lemma decimal_4:
  "1000 \<le> n \<Longrightarrow> n < 10000 \<Longrightarrow>
   decimal n = [0x30 + n div 1000, 0x30 + n div 100 mod 10, 0x30 + n div 10 mod 10, 0x30 + n mod 10]"
  by (subst decimal.simps) (simp add: decimal_3 div_mult2_eq [symmetric])

lemma two_digits_eq: "n < 100 \<Longrightarrow> two_digits n = [0x30 + n div 10, 0x30 + n mod 10]"
  by (cases "n < 10") (simp_all add: two_digits_def decimal_1 decimal_2)

lemma digit_of: "d < 10 \<Longrightarrow> is_digit (0x30 + d)"
  by (simp add: is_digit_def)

lemma strftime_matches:
  assumes "valid_datetime dt"
  shows "full_match timestamp_pattern (strftime dt)"
proof -
  from assms have y: "1000 \<le> year dt" "year dt < 10000"
    and f: "month dt < 100" "day dt < 100" "hour dt < 100" "minute dt < 100" "second dt < 100"
    by (simp_all add: valid_datetime_def)
  have d: "is_digit (0x30 + n div 10)" if "n < 100" for n
    using that by (intro digit_of) simp
  have m: "is_digit (0x30 + n mod 10)" for n
    by (intro digit_of) simp
  have y1: "is_digit (0x30 + year dt div 1000)"
    using y by (intro digit_of) simp
  show ?thesis
    using y1 d [OF f(1)] d [OF f(2)] d [OF f(3)] d [OF f(4)] d [OF f(5)] m
    by (simp add: strftime_def decimal_4 [OF y] two_digits_eq f timestamp_pattern_def py_def)
qed

lemma queen_strip: "strip queen_text = py ''Artist: Queen'' @ [0x0A] @ py ''Title: Bohemian Rhapsody''"
  by (simp add: queen_text_def str_defs)

lemma queen_extract:
  "extract_metadata queen_text = (Some (py ''Queen''), Some (py ''Bohemian Rhapsody''))"
  "extract_metadata (strip queen_text) = (Some (py ''Queen''), Some (py ''Bohemian Rhapsody''))"
  by (simp_all add: queen_strip) (simp_all add: queen_text_def extract_metadata_def match_defs str_defs)

lemma queen_parse:
  "parse_file p (Text queen_text) = ([], Inr (Some (py ''Queen''), Some (py ''Bohemian Rhapsody'')))"
proof -
  have "strip queen_text \<noteq> []" by (simp add: queen_strip py_def)
  from parse_file_Text [OF this] show ?thesis by (simp add: queen_extract)
qed

lemma posts_of_attempt:
  assumes "validate_metadata artist title = ([], Inr True)"
    and "snd (get_current_timestamp cfg w) = Inr ts"
    and "build_url cfg artist title ts = Inr url"
  shows "posts (fst (post_now_playing cfg w artist title)) =
           [HttpPost url (api_username cfg, api_password cfg) 30]"
    and "snd (post_now_playing cfg w artist title) = Inr (case session_post w url of
           Raises e \<Rightarrow> False | Response s \<Rightarrow> \<not> (400 \<le> s \<and> s < 600))"
  using assms
  by (auto simp: post_now_playing_def send_request_def get_current_timestamp_def io_defs posts_def
      split: prod.splits sum.splits http_result.splits option.splits)

lemma timestamp_returns:
  "\<exists>tr tz. get_current_timestamp cfg w = (tr, Inr (strftime (datetime_now w tz)))"
  by (auto simp: get_current_timestamp_def io_defs split: option.splits)

lemma queen_url:
  "build_url cfg (py ''Queen'') (py ''Bohemian Rhapsody'') ts =
     Inr (api_endpoint cfg @ py ''?rpuid='' @ str_int (rpuid cfg) @ py ''&startTime='' @ ts @
          py ''&title=Bohemian+Rhapsody'' @ py ''&artist=Queen'')"
  by (simp add: build_url_def demo_quote) (simp add: py_def)

lemma truthy_Some: "truthy (Some s) \<longleftrightarrow> s \<noteq> []"
  by (simp add: truthy_def)

lemma queen_truthy: "truthy (Some (py ''Queen''))" "truthy (Some (py ''Bohemian Rhapsody''))"
  by (simp_all add: truthy_def py_def)

lemma posts_simps:
  "posts [] = []" "posts (Log l m # tr) = posts tr"
  "posts (HttpPost u a n # tr) = HttpPost u a n # posts tr" "posts (xs @ ys) = posts xs @ posts ys"
  by (simp_all add: posts_def)

lemma demo_post_200:
  "post_now_playing demo_config (demo_world t f (Response 200)) (py ''Queen'') (py ''Bohemian Rhapsody'') =
     ([Log DEBUG (PostRequest demo_request),
       HttpPost demo_request (py ''user'', py ''key'') 30,
       Log INFO (SuccessfullyPosted (py ''Queen'') (py ''Bohemian Rhapsody''))],
      Inr True)"
  by (simp add: post_now_playing_def send_request_def demo_validate demo_timestamp demo_url io_defs)
     (simp add: demo_config_def demo_world_def io_defs)

lemma demo_queen_change:
  "process_file_change (demo_handler\<lparr>last_modified := t\<rparr>)
       (demo_world t' (Text queen_text) (Response 200)) =
     ([Log INFO (FileChanged (py ''/tmp/now.txt'')),
       Log INFO (Extracted (py ''Queen'') (py ''Bohemian Rhapsody'')),
       Log DEBUG (PostRequest demo_request),
       HttpPost demo_request (py ''user'', py ''key'') 30,
       Log INFO (SuccessfullyPosted (py ''Queen'') (py ''Bohemian Rhapsody''))],
      Inr ())"
proof -
  let ?h = "demo_handler\<lparr>last_modified := t\<rparr>"
  let ?w = "demo_world t' (Text queen_text) (Response 200)"
  have h: "handler.file_path ?h = py ''/tmp/now.txt''" "api_client ?h = demo_config"
    by (simp_all add: demo_handler_def FileChangeHandler_def)
  have f: "file_read ?w = Text queen_text"
    by (simp add: demo_world_def)
  show ?thesis
    by (simp add: process_file_change_eq h f queen_parse queen_truthy demo_post_200)
qed

lemma process_initial_file_eq:
  "process_initial_file cfg w =
     (case parse_file (config.file_path cfg) (file_read w) of
        (tr, Inl e) \<Rightarrow> (tr @ [Log ERROR (ErrorProcessingInitialFile e)], Inr ())
      | (tr, Inr (a, t)) \<Rightarrow>
          if truthy a \<and> truthy t then
            (case post_now_playing cfg w (the a) (the t) of
               (tr', Inl e) \<Rightarrow>
                 (tr @ Log INFO (InitialFileContent (the a) (the t)) # tr' @
                    [Log ERROR (ErrorProcessingInitialFile e)], Inr ())
             | (tr', Inr b) \<Rightarrow>
                 (tr @ Log INFO (InitialFileContent (the a) (the t)) # tr', Inr ()))
          else (tr @ [Log WARNING NoValidInitial], Inr ()))"
  by (auto simp: process_initial_file_def io_defs split: prod.splits sum.splits)

lemma process_initial_file_returns: "snd (process_initial_file cfg w) = Inr ()"
  by (auto simp: process_initial_file_eq split: prod.splits sum.splits)

lemma posts_parse: "posts (fst (parse_file p f)) = []"
  by (auto simp: parse_file_def io_defs posts_def Let_def split: file_state.splits)

lemma posts_post_le: "length (posts (fst (post_now_playing cfg w a t))) \<le> 1"
  by (auto simp: post_now_playing_def validate_metadata_def get_current_timestamp_def
      send_request_def io_defs posts_def
      split: sum.splits option.splits http_result.splits prod.splits)

lemma posts_initial_le: "length (posts (fst (process_initial_file cfg w))) \<le> 1"
proof -
  obtain tr r where p: "parse_file (config.file_path cfg) (file_read w) = (tr, r)"
    by (cases "parse_file (config.file_path cfg) (file_read w)")
  with posts_parse [of "config.file_path cfg" "file_read w"] have tr: "posts tr = []"
    by simp
  show ?thesis
  proof (cases r)
    case (Inl e)
    with p tr show ?thesis
      by (simp add: process_initial_file_eq posts_simps)
  next
    case (Inr pr)
    obtain a t where pr: "pr = (a, t)" by (cases pr)
    obtain tr' r' where q: "post_now_playing cfg w (the a) (the t) = (tr', r')"
      by (cases "post_now_playing cfg w (the a) (the t)")
    with posts_post_le [of cfg w "the a" "the t"] have "length (posts tr') \<le> 1"
      by simp
    with p Inr pr q tr show ?thesis
      by (cases r') (simp_all add: process_initial_file_eq posts_simps)
  qed
qed

lemma start_monitoring_eq:
  "start_monitoring cfg True w =
     (fst (process_initial_file cfg w) @ [Log INFO (StartedMonitoring (config.file_path cfg))],
      Inr (FileChangeHandler (config.file_path cfg) cfg))"
  "start_monitoring cfg False w =
     ([Log ERROR (FailedToStartMonitoring (FileNotFoundError (config.file_path cfg)))],
      Inl (FileNotFoundError (config.file_path cfg)))"
proof -
  obtain tr where "process_initial_file cfg w = (tr, Inr ())"
    using process_initial_file_returns [of cfg w] by (cases "process_initial_file cfg w") auto
  then show "start_monitoring cfg True w =
     (fst (process_initial_file cfg w) @ [Log INFO (StartedMonitoring (config.file_path cfg))],
      Inr (FileChangeHandler (config.file_path cfg) cfg))"
    by (simp add: start_monitoring_def io_defs)
  show "start_monitoring cfg False w =
     ([Log ERROR (FailedToStartMonitoring (FileNotFoundError (config.file_path cfg)))],
      Inl (FileNotFoundError (config.file_path cfg)))"
    by (simp add: start_monitoring_def io_defs)
qed

section \<open>The claims\<close>

subsection \<open>C1: a label without a matching line\<close>




subsection \<open>C2: the report attempt of the startup\<close>

text \<open>
  Claim C2, as the code has it. Startup makes at most one report attempt, and what it
  does is fixed by the watched file and the world at that moment. When \<^verbatim>\<open>parse_file\<close>
  gives an artist and a title that are both non-empty, \<^verbatim>\<open>_process_initial_file\<close> calls
  \<^verbatim>\<open>post_now_playing\<close> on that pair, once, and the effects of the call are its own.
  When a field is missing or empty, or the read raises, it logs one line and makes no
  attempt. It never raises; \<^verbatim>\<open>start_monitoring\<close> then goes on to watch, and when the
  file does not exist it stops with \<^verbatim>\<open>FileNotFoundError\<close> before any attempt.
\<close>

theorem startup_report_attempts:
  "snd (process_initial_file cfg w) = Inr () \<and>
   length (posts (fst (process_initial_file cfg w))) \<le> 1 \<and>
   (\<forall>tr a t. parse_file (config.file_path cfg) (file_read w) = (tr, Inr (Some a, Some t)) \<and>
        a \<noteq> [] \<and> t \<noteq> [] \<longrightarrow>
      fst (process_initial_file cfg w) =
        tr @ Log INFO (InitialFileContent a t) # fst (post_now_playing cfg w a t) @
        (case snd (post_now_playing cfg w a t) of
           Inl e \<Rightarrow> [Log ERROR (ErrorProcessingInitialFile e)]
         | Inr b \<Rightarrow> [])) \<and>
   (\<forall>tr a t. parse_file (config.file_path cfg) (file_read w) = (tr, Inr (a, t)) \<and>
        \<not> (truthy a \<and> truthy t) \<longrightarrow>
      process_initial_file cfg w = (tr @ [Log WARNING NoValidInitial], Inr ()) \<and> posts tr = []) \<and>
   (\<forall>tr e. parse_file (config.file_path cfg) (file_read w) = (tr, Inl e) \<longrightarrow>
      process_initial_file cfg w = (tr @ [Log ERROR (ErrorProcessingInitialFile e)], Inr ()) \<and>
      posts tr = []) \<and>
   start_monitoring cfg True w =
     (fst (process_initial_file cfg w) @ [Log INFO (StartedMonitoring (config.file_path cfg))],
      Inr (FileChangeHandler (config.file_path cfg) cfg)) \<and>
   start_monitoring cfg False w =
     ([Log ERROR (FailedToStartMonitoring (FileNotFoundError (config.file_path cfg)))],
      Inl (FileNotFoundError (config.file_path cfg)))"
proof -
  have quiet: "posts tr = []" if "parse_file (config.file_path cfg) (file_read w) = (tr, r)" for tr r
    using posts_parse [of "config.file_path cfg" "file_read w"] that by simp
  have attempt: "\<forall>tr a t. parse_file (config.file_path cfg) (file_read w) = (tr, Inr (Some a, Some t)) \<and>
        a \<noteq> [] \<and> t \<noteq> [] \<longrightarrow>
      fst (process_initial_file cfg w) =
        tr @ Log INFO (InitialFileContent a t) # fst (post_now_playing cfg w a t) @
        (case snd (post_now_playing cfg w a t) of
           Inl e \<Rightarrow> [Log ERROR (ErrorProcessingInitialFile e)]
         | Inr b \<Rightarrow> [])"
    by (auto simp: process_initial_file_eq truthy_def split: prod.splits sum.splits)
  have absent: "\<forall>tr a t. parse_file (config.file_path cfg) (file_read w) = (tr, Inr (a, t)) \<and>
        \<not> (truthy a \<and> truthy t) \<longrightarrow>
      process_initial_file cfg w = (tr @ [Log WARNING NoValidInitial], Inr ()) \<and> posts tr = []"
    using quiet by (auto simp: process_initial_file_eq)
  have failed: "\<forall>tr e. parse_file (config.file_path cfg) (file_read w) = (tr, Inl e) \<longrightarrow>
      process_initial_file cfg w = (tr @ [Log ERROR (ErrorProcessingInitialFile e)], Inr ()) \<and>
      posts tr = []"
    using quiet by (auto simp: process_initial_file_eq)
  from process_initial_file_returns [of cfg w] posts_initial_le [of cfg w] attempt absent failed
    start_monitoring_eq [of cfg w]
  show ?thesis by blast
qed

theorem startup_report_attempts_witness:
  "parse_file (config.file_path demo_config) (Text queen_text) =
     ([], Inr (Some (py ''Queen''), Some (py ''Bohemian Rhapsody''))) \<and>
   process_initial_file demo_config (demo_world 0 (Text queen_text) (Response 200)) =
     ([Log INFO (InitialFileContent (py ''Queen'') (py ''Bohemian Rhapsody'')),
       Log DEBUG (PostRequest demo_request),
       HttpPost demo_request (py ''user'', py ''key'') 30,
       Log INFO (SuccessfullyPosted (py ''Queen'') (py ''Bohemian Rhapsody''))],
      Inr ())"
proof -
  let ?w = "demo_world 0 (Text queen_text) (Response 200)"
  have f: "file_read ?w = Text queen_text"
    by (simp add: demo_world_def)
  have n: "py ''Queen'' \<noteq> []" "py ''Bohemian Rhapsody'' \<noteq> []"
    by (simp_all add: py_def)
  have p: "parse_file (config.file_path demo_config) (file_read ?w) =
      ([], Inr (Some (py ''Queen''), Some (py ''Bohemian Rhapsody'')))"
    by (simp add: f queen_parse)
  note th = startup_report_attempts [of demo_config ?w]
  from th have r: "snd (process_initial_file demo_config ?w) = Inr ()"
    by blast
  from th p n have "fst (process_initial_file demo_config ?w) =
      [] @ Log INFO (InitialFileContent (py ''Queen'') (py ''Bohemian Rhapsody'')) #
        fst (post_now_playing demo_config ?w (py ''Queen'') (py ''Bohemian Rhapsody'')) @
        (case snd (post_now_playing demo_config ?w (py ''Queen'') (py ''Bohemian Rhapsody'')) of
           Inl e \<Rightarrow> [Log ERROR (ErrorProcessingInitialFile e)]
         | Inr b \<Rightarrow> [])"
    by blast
  then have "fst (process_initial_file demo_config ?w) =
     [Log INFO (InitialFileContent (py ''Queen'') (py ''Bohemian Rhapsody'')),
       Log DEBUG (PostRequest demo_request),
       HttpPost demo_request (py ''user'', py ''key'') 30,
       Log INFO (SuccessfullyPosted (py ''Queen'') (py ''Bohemian Rhapsody''))]"
    by (simp add: demo_post_200)
  with r p f show ?thesis
    by (cases "process_initial_file demo_config ?w") simp
qed

text \<open>
  Startup on an empty file: two warnings, the watch starts, and \<^verbatim>\<open>post_now_playing\<close> was
  not called, so there is no report attempt at all.
\<close>

theorem startup_on_empty_file_reports_nothing:
  "process_initial_file demo_config (demo_world 0 (Text []) (Response 200)) =
     ([Log WARNING FileIsEmpty, Log WARNING NoValidInitial], Inr ()) \<and>
   start_monitoring demo_config True (demo_world 0 (Text []) (Response 200)) =
     ([Log WARNING FileIsEmpty, Log WARNING NoValidInitial,
       Log INFO (StartedMonitoring (py ''/tmp/now.txt''))],
      Inr (FileChangeHandler (py ''/tmp/now.txt'') demo_config))"
proof -
  let ?w = "demo_world 0 (Text []) (Response 200)"
  have f: "file_read ?w = Text []"
    by (simp add: demo_world_def)
  have c: "config.file_path demo_config = py ''/tmp/now.txt''"
    by (simp add: demo_config_def)
  have p: "parse_file path (Text []) = ([Log WARNING FileIsEmpty], Inr (None, None))" for path
    by (simp add: parse_file_def strip_Nil io_defs)
  have i: "process_initial_file demo_config ?w =
      ([Log WARNING FileIsEmpty, Log WARNING NoValidInitial], Inr ())"
    by (simp add: process_initial_file_eq f p truthy_def)
  then show ?thesis
    by (simp add: start_monitoring_eq c)
qed

subsection \<open>C3: the last matching line wins\<close>

text \<open>
  Claim C3. For every text with a line that matches the artist pattern and a line that
  matches the title pattern, \<^verbatim>\<open>_extract_metadata\<close> returns, for each label, the trimmed
  group of the last line that matches it; \<^verbatim>\<open>parse_file\<close> returns the same pair for a
  file whose trimmed text this is.
\<close>

theorem last_matching_line_wins:
  assumes "matching ARTIST_PATTERN content \<noteq> []" and "matching TITLE_PATTERN content \<noteq> []"
  shows "\<exists>ga gt. ARTIST_PATTERN (last (matching ARTIST_PATTERN content)) = Some ga \<and>
                 TITLE_PATTERN (last (matching TITLE_PATTERN content)) = Some gt \<and>
                 extract_metadata content = (Some (strip ga), Some (strip gt)) \<and>
                 (\<forall>path raw. strip raw = content \<longrightarrow>
                    parse_file path (Text raw) = ([], Inr (Some (strip ga), Some (strip gt))))"
proof -
  from matching_last_Some [OF assms(1)] obtain ga
    where ga: "ARTIST_PATTERN (last (matching ARTIST_PATTERN content)) = Some ga" ..
  from matching_last_Some [OF assms(2)] obtain gt
    where gt: "TITLE_PATTERN (last (matching TITLE_PATTERN content)) = Some gt" ..
  have e: "extract_metadata content = (Some (strip ga), Some (strip gt))"
    using assms ga gt by (simp add: extract_metadata_last_group last_group_matching)
  from assms(1) have "content \<noteq> []"
    by (auto simp: matching_Nil)
  with e have "\<forall>path raw. strip raw = content \<longrightarrow>
      parse_file path (Text raw) = ([], Inr (Some (strip ga), Some (strip gt)))"
    by (auto simp: parse_file_Text)
  with ga gt e show ?thesis by blast
qed

theorem last_matching_line_wins_witness:
  "matching ARTIST_PATTERN demo_text = [py ''Artist: Abba'', py ''artist:   Queen''] \<and>
   matching TITLE_PATTERN demo_text = [py ''TITLE: Waterloo'', py ''title: Bohemian Rhapsody''] \<and>
   extract_metadata demo_text = (Some (py ''Queen''), Some (py ''Bohemian Rhapsody''))"
proof -
  have ne: "matching ARTIST_PATTERN demo_text \<noteq> []" "matching TITLE_PATTERN demo_text \<noteq> []"
    by (simp_all add: demo_text_matching)
  have s: "strip (py ''  Queen'') = py ''Queen''"
    "strip (py ''Bohemian Rhapsody'') = py ''Bohemian Rhapsody''"
    by (simp_all add: str_defs)
  from last_matching_line_wins [OF ne] show ?thesis
    by (auto simp: demo_text_matching demo_text_groups s)
qed

subsection \<open>C4: a blank field is rejected\<close>

text \<open>
  Claim C4. For every pair of artist and title of which one is empty once its whitespace
  is trimmed, \<^verbatim>\<open>post_now_playing\<close> returns \<^verbatim>\<open>False\<close> after one validation warning and
  hands no request to the session: the outcome is a rejection, whatever the world.
\<close>

theorem blank_field_rejected_without_request:
  assumes "strip artist = [] \<or> strip title = []"
  shows "snd (post_now_playing cfg w artist title) = Inr False \<and>
         posts (fst (post_now_playing cfg w artist title)) = [] \<and>
         (fst (post_now_playing cfg w artist title) = [Log WARNING MissingArtistOrTitle] \<or>
          fst (post_now_playing cfg w artist title) = [Log WARNING EmptyAfterStripping])"
  using validate_blank [OF assms]
  by (auto simp: post_now_playing_def io_defs posts_def)

theorem blank_field_rejected_without_request_witness:
  "strip (py ''Queen'') \<noteq> [] \<and> strip [0x20, 0x09] = [] \<and>
   post_now_playing demo_config (demo_world 0 Missing (Response 200)) (py ''Queen'') [0x20, 0x09] =
     ([Log WARNING EmptyAfterStripping], Inr False)"
  using blank_field_rejected_without_request
    [of "py ''Queen''" "[0x20, 0x09]" demo_config "demo_world 0 Missing (Response 200)"]
  by (cases "post_now_playing demo_config (demo_world 0 Missing (Response 200)) (py ''Queen'') [0x20, 0x09]")
     (auto simp: str_defs post_now_playing_def validate_metadata_def io_defs)

subsection \<open>C5: the outcome of a delivery\<close>

text \<open>
  Claim C5, as the code has it. For every pair that passes validation and whose URL can
  be built, \<^verbatim>\<open>post_now_playing\<close> hands exactly one request to the session. When the
  session raises a \<^verbatim>\<open>RequestException\<close> (a transport error, a timeout) or the status of
  the response is from 400 to 599, the value is \<^verbatim>\<open>False\<close> and no exception leaves the
  function; when the status is from 200 to 299, the value is \<^verbatim>\<open>True\<close>.
\<close>

theorem delivery_outcome:
  assumes "strip artist \<noteq> []" and "strip title \<noteq> []"
    and "snd (get_current_timestamp cfg w) = Inr ts"
    and "build_url cfg artist title ts = Inr url"
  shows "posts (fst (post_now_playing cfg w artist title)) =
           [HttpPost url (api_username cfg, api_password cfg) 30] \<and>
         (\<forall>e. session_post w url = Raises e \<longrightarrow>
            snd (post_now_playing cfg w artist title) = Inr False) \<and>
         (\<forall>s. session_post w url = Response s \<and> 400 \<le> s \<and> s < 600 \<longrightarrow>
            snd (post_now_playing cfg w artist title) = Inr False) \<and>
         (\<forall>s. session_post w url = Response s \<and> 200 \<le> s \<and> s < 300 \<longrightarrow>
            snd (post_now_playing cfg w artist title) = Inr True)"
  using assms(3,4) validate_ok [OF assms(1,2)]
  by (auto simp: post_now_playing_def send_request_def get_current_timestamp_def io_defs posts_def
      split: prod.splits sum.splits http_result.splits option.splits)

theorem delivery_outcome_witness:
  "strip (py ''Queen'') \<noteq> [] \<and> strip (py ''Bohemian Rhapsody'') \<noteq> [] \<and>
   build_url demo_config (py ''Queen'') (py ''Bohemian Rhapsody'') (py ''2026-11-04T12:08:05'') =
     Inr demo_request \<and>
   snd (post_now_playing demo_config (demo_world 0 Missing (Raises Timeout))
          (py ''Queen'') (py ''Bohemian Rhapsody'')) = Inr False \<and>
   snd (post_now_playing demo_config (demo_world 0 Missing (Response 500))
          (py ''Queen'') (py ''Bohemian Rhapsody'')) = Inr False \<and>
   snd (post_now_playing demo_config (demo_world 0 Missing (Response 200))
          (py ''Queen'') (py ''Bohemian Rhapsody'')) = Inr True \<and>
   posts (fst (post_now_playing demo_config (demo_world 0 Missing (Response 200))
          (py ''Queen'') (py ''Bohemian Rhapsody''))) =
     [HttpPost demo_request (py ''user'', py ''key'') 30]"
proof -
  have a: "strip (py ''Queen'') \<noteq> []" "strip (py ''Bohemian Rhapsody'') \<noteq> []"
    by (simp_all add: str_defs)
  have t: "snd (get_current_timestamp demo_config (demo_world 0 Missing r)) =
             Inr (py ''2026-11-04T12:08:05'')" for r
    by (simp add: demo_timestamp)
  have s: "session_post (demo_world 0 Missing r) demo_request = r" for r
    by (simp add: demo_world_def)
  have c: "api_username demo_config = py ''user''" "api_password demo_config = py ''key''"
    by (simp_all add: demo_config_def)
  note th = delivery_outcome [OF a t demo_url]
  from th [of "Raises Timeout"] th [of "Response 500"] th [of "Response 200"] a demo_url
  show ?thesis
    by (simp add: s c)
qed

text \<open>
  A response that is not a success need not fail the report: the status 304 is outside
  200 to 299, and the value is \<^verbatim>\<open>True\<close>, after the log line of a delivery.
\<close>

theorem status_304_counts_as_delivered:
  "session_post (demo_world 0 Missing (Response 304)) demo_request = Response 304 \<and>
   \<not> (200 \<le> (304 :: int) \<and> (304 :: int) < 300) \<and>
   post_now_playing demo_config (demo_world 0 Missing (Response 304))
       (py ''Queen'') (py ''Bohemian Rhapsody'') =
     ([Log DEBUG (PostRequest demo_request),
       HttpPost demo_request (py ''user'', py ''key'') 30,
       Log INFO (SuccessfullyPosted (py ''Queen'') (py ''Bohemian Rhapsody''))],
      Inr True)"
  by (simp add: demo_post_304) (simp add: demo_world_def)

subsection \<open>C6: debouncing\<close>

text \<open>
  Claim C6. An eligible event that comes less than one second after the last accepted
  one leaves the handler as it was and does nothing; any other eligible event becomes
  the last accepted one and is processed, once. Over any sequence of eligible events the
  processed ones are those the debounce rule accepts. In particular, after a first
  event that is accepted, a second one closer than a second is dropped, the run being
  the processing of the first alone, and a second one a second or more later is
  processed too.
\<close>

theorem debounce:
  "(eligible h ev \<and> time_time w - last_modified h < 1 \<longrightarrow>
      on_modified h ev w = (h, ([], Inr ()))) \<and>
   (eligible h ev \<and> \<not> time_time w - last_modified h < 1 \<longrightarrow>
      on_modified h ev w =
        (h\<lparr>last_modified := time_time w\<rparr>,
         process_file_change (h\<lparr>last_modified := time_time w\<rparr>) w) \<and>
      processed (fst (snd (on_modified h ev w))) = 1) \<and>
   ((\<forall>(ev, w) \<in> set evs. eligible h ev) \<longrightarrow>
      processed (fst (snd (dispatch h evs))) =
        length (accepted_times (last_modified h) (map (\<lambda>(ev, w). time_time w) evs))) \<and>
   (eligible h e1 \<and> eligible h e2 \<and> 1 \<le> time_time w1 - last_modified h \<and>
      time_time w2 - time_time w1 < 1 \<longrightarrow>
      snd (dispatch h [(e1, w1), (e2, w2)]) =
        process_file_change (h\<lparr>last_modified := time_time w1\<rparr>) w1 \<and>
      processed (fst (snd (dispatch h [(e1, w1), (e2, w2)]))) = 1) \<and>
   (eligible h e1 \<and> eligible h e2 \<and> 1 \<le> time_time w1 - last_modified h \<and>
      1 \<le> time_time w2 - time_time w1 \<longrightarrow>
      fst (snd (dispatch h [(e1, w1), (e2, w2)])) =
        fst (process_file_change (h\<lparr>last_modified := time_time w1\<rparr>) w1) @
        fst (process_file_change (h\<lparr>last_modified := time_time w2\<rparr>) w2) \<and>
      processed (fst (snd (dispatch h [(e1, w1), (e2, w2)]))) = 2)"
proof -
  have discard: "eligible h ev \<and> time_time w - last_modified h < 1 \<longrightarrow>
      on_modified h ev w = (h, ([], Inr ()))"
    by (simp add: on_modified_discard)
  have accept: "eligible h ev \<and> \<not> time_time w - last_modified h < 1 \<longrightarrow>
      on_modified h ev w =
        (h\<lparr>last_modified := time_time w\<rparr>,
         process_file_change (h\<lparr>last_modified := time_time w\<rparr>) w) \<and>
      processed (fst (snd (on_modified h ev w))) = 1"
    by (simp add: on_modified_accept processed_process_file_change)
  have run: "(\<forall>(ev, w) \<in> set evs. eligible h ev) \<longrightarrow>
      processed (fst (snd (dispatch h evs))) =
        length (accepted_times (last_modified h) (map (\<lambda>(ev, w). time_time w) evs))"
    using dispatch_processed [of evs h] by blast
  have close: "eligible h e1 \<and> eligible h e2 \<and> 1 \<le> time_time w1 - last_modified h \<and>
      time_time w2 - time_time w1 < 1 \<longrightarrow>
      snd (dispatch h [(e1, w1), (e2, w2)]) =
        process_file_change (h\<lparr>last_modified := time_time w1\<rparr>) w1 \<and>
      processed (fst (snd (dispatch h [(e1, w1), (e2, w2)]))) = 1"
  proof (intro impI)
    assume a: "eligible h e1 \<and> eligible h e2 \<and> 1 \<le> time_time w1 - last_modified h \<and>
      time_time w2 - time_time w1 < 1"
    let ?h = "h\<lparr>last_modified := time_time w1\<rparr>"
    obtain tr where p: "process_file_change ?h w1 = (tr, Inr ())"
      using process_file_change_returns [of ?h w1] by (cases "process_file_change ?h w1") auto
    from a have first: "on_modified h e1 w1 = (?h, process_file_change ?h w1)"
      by (simp add: on_modified_accept)
    from a have second: "on_modified ?h e2 w2 = (?h, ([], Inr ()))"
      by (simp add: on_modified_discard eligible_update)
    from first second p processed_process_file_change [of ?h w1]
    show "snd (dispatch h [(e1, w1), (e2, w2)]) = process_file_change ?h w1 \<and>
      processed (fst (snd (dispatch h [(e1, w1), (e2, w2)]))) = 1"
      by (simp add: io_defs)
  qed
  have apart: "eligible h e1 \<and> eligible h e2 \<and> 1 \<le> time_time w1 - last_modified h \<and>
      1 \<le> time_time w2 - time_time w1 \<longrightarrow>
      fst (snd (dispatch h [(e1, w1), (e2, w2)])) =
        fst (process_file_change (h\<lparr>last_modified := time_time w1\<rparr>) w1) @
        fst (process_file_change (h\<lparr>last_modified := time_time w2\<rparr>) w2) \<and>
      processed (fst (snd (dispatch h [(e1, w1), (e2, w2)]))) = 2"
  proof (intro impI)
    assume a: "eligible h e1 \<and> eligible h e2 \<and> 1 \<le> time_time w1 - last_modified h \<and>
      1 \<le> time_time w2 - time_time w1"
    let ?h1 = "h\<lparr>last_modified := time_time w1\<rparr>"
    let ?h2 = "h\<lparr>last_modified := time_time w2\<rparr>"
    obtain tr1 where p1: "process_file_change ?h1 w1 = (tr1, Inr ())"
      using process_file_change_returns [of ?h1 w1] by (cases "process_file_change ?h1 w1") auto
    obtain tr2 where p2: "process_file_change ?h2 w2 = (tr2, Inr ())"
      using process_file_change_returns [of ?h2 w2] by (cases "process_file_change ?h2 w2") auto
    from a have first: "on_modified h e1 w1 = (?h1, process_file_change ?h1 w1)"
      by (simp add: on_modified_accept)
    from a have second: "on_modified ?h1 e2 w2 = (?h2, process_file_change ?h2 w2)"
      by (simp add: on_modified_accept eligible_update)
    from first second p1 p2 processed_process_file_change [of ?h1 w1]
      processed_process_file_change [of ?h2 w2]
    show "fst (snd (dispatch h [(e1, w1), (e2, w2)])) =
        fst (process_file_change ?h1 w1) @ fst (process_file_change ?h2 w2) \<and>
      processed (fst (snd (dispatch h [(e1, w1), (e2, w2)]))) = 2"
      by (simp add: io_defs processed_append)
  qed
  from discard accept run close apart show ?thesis by blast
qed

theorem debounce_witness:
  "eligible demo_handler demo_event \<and> last_modified demo_handler = 0 \<and>
   processed (fst (snd (dispatch demo_handler
      [(demo_event, demo_world 100 Missing (Response 200)),
       (demo_event, demo_world (201 / 2) Missing (Response 200))]))) = 1 \<and>
   processed (fst (snd (dispatch demo_handler
      [(demo_event, demo_world 100 Missing (Response 200)),
       (demo_event, demo_world 101 Missing (Response 200))]))) = 2 \<and>
   on_modified (demo_handler\<lparr>last_modified := 100\<rparr>) demo_event
       (demo_world (201 / 2) Missing (Response 200)) =
     (demo_handler\<lparr>last_modified := 100\<rparr>, ([], Inr ()))"
proof -
  let ?w1 = "demo_world 100 Missing (Response 200)"
  let ?w2 = "demo_world (201 / 2) Missing (Response 200)"
  let ?w3 = "demo_world 101 Missing (Response 200)"
  let ?h = "demo_handler\<lparr>last_modified := 100\<rparr>"
  have t: "time_time (demo_world x f r) = x" for x f r
    by (simp add: demo_world_def)
  have l: "last_modified demo_handler = 0"
    by (simp add: demo_handler_def FileChangeHandler_def)
  have close: "eligible demo_handler demo_event \<and> eligible demo_handler demo_event \<and>
      1 \<le> time_time ?w1 - last_modified demo_handler \<and> time_time ?w2 - time_time ?w1 < 1"
    by (simp add: demo_eligible t l)
  have apart: "eligible demo_handler demo_event \<and> eligible demo_handler demo_event \<and>
      1 \<le> time_time ?w1 - last_modified demo_handler \<and> 1 \<le> time_time ?w3 - time_time ?w1"
    by (simp add: demo_eligible t l)
  have early: "eligible ?h demo_event \<and> time_time ?w2 - last_modified ?h < 1"
    by (simp add: demo_eligible t)
  from close debounce [where h = demo_handler and ?e1.0 = demo_event and ?e2.0 = demo_event
      and ?w1.0 = ?w1 and ?w2.0 = ?w2]
  have one: "processed (fst (snd (dispatch demo_handler [(demo_event, ?w1), (demo_event, ?w2)]))) = 1"
    by blast
  from apart debounce [where h = demo_handler and ?e1.0 = demo_event and ?e2.0 = demo_event
      and ?w1.0 = ?w1 and ?w2.0 = ?w3]
  have two: "processed (fst (snd (dispatch demo_handler [(demo_event, ?w1), (demo_event, ?w3)]))) = 2"
    by blast
  from early debounce [where h = ?h and ev = demo_event and w = ?w2]
  have drop: "on_modified ?h demo_event ?w2 = (?h, ([], Inr ()))"
    by blast
  from one two drop l demo_eligible(2) show ?thesis
    by blast
qed

subsection \<open>C7: end to end\<close>

text \<open>
  Claim C7. For the file content \<^verbatim>\<open>Artist: Queen\nTitle: Bohemian Rhapsody\n\<close>,
  extraction gives the artist \<^verbatim>\<open>Queen\<close> and the title \<^verbatim>\<open>Bohemian Rhapsody\<close>; handling
  a change of that file sends one request, whose URL carries \<^verbatim>\<open>title=Bohemian+Rhapsody\<close>
  and \<^verbatim>\<open>artist=Queen\<close> and a \<^verbatim>\<open>startTime\<close> of the shape
  \<^verbatim>\<open>dddd-dd-ddTdd:dd:dd\<close>, for every configuration and every clock reading in a year
  of four digits.
\<close>

theorem queen_end_to_end:
  assumes "file_read w = Text queen_text" and "\<forall>tz. valid_datetime (datetime_now w tz)"
  shows "extract_metadata queen_text = (Some (py ''Queen''), Some (py ''Bohemian Rhapsody'')) \<and>
         parse_file (handler.file_path h) (file_read w) =
           ([], Inr (Some (py ''Queen''), Some (py ''Bohemian Rhapsody''))) \<and>
         (\<exists>tr ts. get_current_timestamp (api_client h) w = (tr, Inr ts) \<and>
            full_match timestamp_pattern ts \<and>
            build_url (api_client h) (py ''Queen'') (py ''Bohemian Rhapsody'') ts =
              Inr (api_endpoint (api_client h) @ py ''?rpuid='' @ str_int (rpuid (api_client h)) @
                   py ''&startTime='' @ ts @ py ''&title=Bohemian+Rhapsody'' @ py ''&artist=Queen'') \<and>
            posts (fst (process_file_change h w)) =
              [HttpPost
                 (api_endpoint (api_client h) @ py ''?rpuid='' @ str_int (rpuid (api_client h)) @
                  py ''&startTime='' @ ts @ py ''&title=Bohemian+Rhapsody'' @ py ''&artist=Queen'')
                 (api_username (api_client h), api_password (api_client h)) 30])"
proof -
  let ?cfg = "api_client h"
  from timestamp_returns [of ?cfg w] obtain tr tz
    where ts: "get_current_timestamp ?cfg w = (tr, Inr (strftime (datetime_now w tz)))"
    by blast
  let ?ts = "strftime (datetime_now w tz)"
  let ?url = "api_endpoint ?cfg @ py ''?rpuid='' @ str_int (rpuid ?cfg) @
      py ''&startTime='' @ ?ts @ py ''&title=Bohemian+Rhapsody'' @ py ''&artist=Queen''"
  from assms(2) have m: "full_match timestamp_pattern ?ts"
    by (simp add: strftime_matches)
  have p: "parse_file (handler.file_path h) (file_read w) =
      ([], Inr (Some (py ''Queen''), Some (py ''Bohemian Rhapsody'')))"
    by (simp add: assms(1) queen_parse)
  from ts have s: "snd (get_current_timestamp ?cfg w) = Inr ?ts" by simp
  note a = posts_of_attempt [OF demo_validate s queen_url]
  obtain tr' r' where q: "post_now_playing ?cfg w (py ''Queen'') (py ''Bohemian Rhapsody'') = (tr', r')"
    by (cases "post_now_playing ?cfg w (py ''Queen'') (py ''Bohemian Rhapsody'')")
  with a have tr': "posts tr' = [HttpPost ?url (api_username ?cfg, api_password ?cfg) 30]"
    and r': "\<exists>b. r' = Inr b"
    by simp_all
  from r' obtain b where "r' = Inr b" ..
  with p q tr' have "posts (fst (process_file_change h w)) =
      [HttpPost ?url (api_username ?cfg, api_password ?cfg) 30]"
    by (simp add: process_file_change_eq queen_truthy posts_simps)
  with ts m p queen_url [of ?cfg ?ts] queen_extract(1) show ?thesis
    by blast
qed

theorem queen_end_to_end_witness:
  "file_read (demo_world 100 (Text queen_text) (Response 200)) = Text queen_text \<and>
   valid_datetime (datetime_now (demo_world 100 (Text queen_text) (Response 200)) UTC) \<and>
   full_match timestamp_pattern (py ''2026-11-04T12:08:05'') \<and>
   posts (fst (process_file_change demo_handler (demo_world 100 (Text queen_text) (Response 200)))) =
     [HttpPost demo_request (py ''user'', py ''key'') 30]"
proof -
  let ?w = "demo_world 100 (Text queen_text) (Response 200)"
  have f: "file_read ?w = Text queen_text"
    by (simp add: demo_world_def)
  have v: "\<forall>tz. valid_datetime (datetime_now ?w tz)"
    by (simp add: demo_world_def valid_datetime_def)
  have c: "api_client demo_handler = demo_config"
    by (simp add: demo_handler_def FileChangeHandler_def)
  have u: "api_endpoint demo_config @ py ''?rpuid='' @ str_int (rpuid demo_config) @
      py ''&startTime='' @ py ''2026-11-04T12:08:05'' @ py ''&title=Bohemian+Rhapsody'' @
      py ''&artist=Queen'' = demo_request"
    by (simp add: demo_config_def demo_request_def str_int_def decimal.simps py_def)
  have a: "api_username demo_config = py ''user''" "api_password demo_config = py ''key''"
    by (simp_all add: demo_config_def)
  from queen_end_to_end [OF f v, of demo_handler] obtain tr ts
    where ts: "get_current_timestamp demo_config ?w = (tr, Inr ts)"
      and m: "full_match timestamp_pattern ts"
      and p: "posts (fst (process_file_change demo_handler ?w)) =
        [HttpPost
           (api_endpoint demo_config @ py ''?rpuid='' @ str_int (rpuid demo_config) @
            py ''&startTime='' @ ts @ py ''&title=Bohemian+Rhapsody'' @ py ''&artist=Queen'')
           (api_username demo_config, api_password demo_config) 30]"
    unfolding c by blast
  from ts have "ts = py ''2026-11-04T12:08:05''"
    by (simp add: demo_timestamp)
  with m p f v show ?thesis
    by (simp add: u a)
qed

subsection \<open>C8: the timezone of the timestamp\<close>

text \<open>
  Claim C8. When \<^verbatim>\<open>pytz\<close> knows the configured zone, the timestamp is the current time
  in that zone, formatted. When it does not, one warning is logged, the timestamp is
  the current time in UTC, and the report goes on: the value of \<^verbatim>\<open>post_now_playing\<close>
  and its requests are those of a run in which the zone had resolved to UTC.
\<close>

theorem unknown_timezone_falls_back_to_utc:
  "(\<forall>tz. pytz_timezone w (timezone cfg) = Some tz \<longrightarrow>
      get_current_timestamp cfg w = ([], Inr (strftime (datetime_now w tz)))) \<and>
   (pytz_timezone w (timezone cfg) = None \<longrightarrow>
      get_current_timestamp cfg w =
        ([Log WARNING (UnknownTimezone (timezone cfg))], Inr (strftime (datetime_now w UTC))) \<and>
      snd (post_now_playing cfg w artist title) =
        snd (post_now_playing cfg (w\<lparr>pytz_timezone := \<lambda>_. Some UTC\<rparr>) artist title) \<and>
      posts (fst (post_now_playing cfg w artist title)) =
        posts (fst (post_now_playing cfg (w\<lparr>pytz_timezone := \<lambda>_. Some UTC\<rparr>) artist title)))"
  by (auto simp: get_current_timestamp_def post_now_playing_def send_request_def io_defs posts_def
      split: prod.splits sum.splits http_result.splits option.splits)

theorem unknown_timezone_falls_back_to_utc_witness:
  "pytz_timezone (demo_world 0 Missing (Response 200)) (py ''Europe/London'') =
     Some (Zone (py ''Europe/London'')) \<and>
   get_current_timestamp demo_config (demo_world 0 Missing (Response 200)) =
     ([], Inr (py ''2026-11-04T12:08:05'')) \<and>
   pytz_timezone (demo_world 0 Missing (Response 200)) (py ''Mars/Olympus'') = None \<and>
   get_current_timestamp (demo_config\<lparr>timezone := py ''Mars/Olympus''\<rparr>)
       (demo_world 0 Missing (Response 200)) =
     ([Log WARNING (UnknownTimezone (py ''Mars/Olympus''))], Inr (py ''2026-11-04T12:08:05'')) \<and>
   snd (post_now_playing (demo_config\<lparr>timezone := py ''Mars/Olympus''\<rparr>)
          (demo_world 0 Missing (Response 200)) (py ''Queen'') (py ''Bohemian Rhapsody'')) =
     Inr True"
proof -
  let ?w = "demo_world 0 Missing (Response 200)"
  let ?cfg = "demo_config\<lparr>timezone := py ''Mars/Olympus''\<rparr>"
  have known: "pytz_timezone ?w (timezone demo_config) = Some (Zone (py ''Europe/London''))"
    by (simp add: demo_world_def demo_config_def py_def)
  have unknown: "pytz_timezone ?w (timezone ?cfg) = None"
    by (simp add: demo_world_def py_def)
  have fmt: "strftime (datetime_now ?w tz) = py ''2026-11-04T12:08:05''" for tz
    by (simp add: demo_world_def strftime_def two_digits_def decimal.simps py_def)
  have utc: "snd (post_now_playing ?cfg (?w\<lparr>pytz_timezone := \<lambda>_. Some UTC\<rparr>)
               (py ''Queen'') (py ''Bohemian Rhapsody'')) = Inr True"
    by (simp add: post_now_playing_def send_request_def demo_validate get_current_timestamp_def
          build_url_def demo_quote io_defs demo_world_def)
  from unknown_timezone_falls_back_to_utc [of ?w demo_config "py ''Queen''" "py ''Bohemian Rhapsody''"]
    unknown_timezone_falls_back_to_utc [of ?w ?cfg "py ''Queen''" "py ''Bohemian Rhapsody''"]
    known unknown utc
  show ?thesis
    by (simp add: fmt) (simp add: demo_config_def demo_world_def)
qed

subsection \<open>C9: failure isolation\<close>

text \<open>
  Claim C9. \<^verbatim>\<open>_process_file_change\<close> returns for every state of the file and of the
  network: an exception of \<^verbatim>\<open>parse_file\<close> or of \<^verbatim>\<open>post_now_playing\<close> ends as one
  error log line. So no exception leaves \<^verbatim>\<open>on_modified\<close>, the dispatching of any
  sequence of events never stops on one, the handler that an event leaves behind does
  not depend on what the file or the network did, and the events that follow are
  handled from that handler as usual.
\<close>

theorem handler_isolates_failures:
  "snd (process_file_change h w) = Inr () \<and>
   snd (snd (on_modified h ev w)) = Inr () \<and>
   snd (snd (dispatch h evs)) = Inr () \<and>
   fst (on_modified h ev (w\<lparr>file_read := f, session_post := p\<rparr>)) = fst (on_modified h ev w) \<and>
   dispatch h ((ev, w) # evs) =
     (fst (dispatch (fst (on_modified h ev w)) evs),
      fst (snd (on_modified h ev w)) @ fst (snd (dispatch (fst (on_modified h ev w)) evs)),
      Inr ()) \<and>
   (\<forall>tr e. parse_file (handler.file_path h) (file_read w) = (tr, Inl e) \<longrightarrow>
      process_file_change h w =
        (Log INFO (FileChanged (handler.file_path h)) # tr @
           [Log ERROR (ErrorProcessingFileChange e)], Inr ())) \<and>
   (\<forall>tr a t tr' e. parse_file (handler.file_path h) (file_read w) = (tr, Inr (a, t)) \<and>
        truthy a \<and> truthy t \<and>
        post_now_playing (api_client h) w (the a) (the t) = (tr', Inl e) \<longrightarrow>
      process_file_change h w =
        (Log INFO (FileChanged (handler.file_path h)) # tr @
           Log INFO (Extracted (the a) (the t)) # tr' @
           [Log ERROR (ErrorProcessingFileChange e)], Inr ()))"
proof -
  have state: "fst (on_modified h ev (w\<lparr>file_read := f, session_post := p\<rparr>)) =
      fst (on_modified h ev w)"
    by (simp add: on_modified_def Let_def)
  have read: "\<forall>tr e. parse_file (handler.file_path h) (file_read w) = (tr, Inl e) \<longrightarrow>
      process_file_change h w =
        (Log INFO (FileChanged (handler.file_path h)) # tr @
           [Log ERROR (ErrorProcessingFileChange e)], Inr ())"
    by (simp add: process_file_change_eq)
  have report: "\<forall>tr a t tr' e. parse_file (handler.file_path h) (file_read w) = (tr, Inr (a, t)) \<and>
        truthy a \<and> truthy t \<and>
        post_now_playing (api_client h) w (the a) (the t) = (tr', Inl e) \<longrightarrow>
      process_file_change h w =
        (Log INFO (FileChanged (handler.file_path h)) # tr @
           Log INFO (Extracted (the a) (the t)) # tr' @
           [Log ERROR (ErrorProcessingFileChange e)], Inr ())"
    by (simp add: process_file_change_eq)
  from process_file_change_returns [of h w] on_modified_returns [of h ev w]
    dispatch_returns [of h evs] state dispatch_Cons [of h ev w evs] read report
  show ?thesis by blast
qed

theorem handler_isolates_failures_witness:
  "dispatch demo_handler
     [(demo_event, demo_world 100 Missing (Response 200)),
      (demo_event, demo_world 102 (Text queen_text) (Response 200))] =
     (demo_handler\<lparr>last_modified := 102\<rparr>,
      [Log INFO (FileChanged (py ''/tmp/now.txt'')),
       Log ERROR (ErrorProcessingFileChange (FileNotFoundError (py ''/tmp/now.txt''))),
       Log INFO (FileChanged (py ''/tmp/now.txt'')),
       Log INFO (Extracted (py ''Queen'') (py ''Bohemian Rhapsody'')),
       Log DEBUG (PostRequest demo_request),
       HttpPost demo_request (py ''user'', py ''key'') 30,
       Log INFO (SuccessfullyPosted (py ''Queen'') (py ''Bohemian Rhapsody''))],
      Inr ())"
proof -
  let ?w1 = "demo_world 100 Missing (Response 200)"
  let ?w2 = "demo_world 102 (Text queen_text) (Response 200)"
  let ?h1 = "demo_handler\<lparr>last_modified := 100\<rparr>"
  let ?h2 = "demo_handler\<lparr>last_modified := 102\<rparr>"
  have t: "time_time (demo_world x f r) = x" for x f r
    by (simp add: demo_world_def)
  have l: "last_modified demo_handler = 0"
    by (simp add: demo_handler_def FileChangeHandler_def)
  have first: "on_modified demo_handler demo_event ?w1 = (?h1, process_file_change ?h1 ?w1)"
    using on_modified_accept [of demo_handler demo_event ?w1] by (simp add: demo_eligible t l)
  have second: "on_modified ?h1 demo_event ?w2 = (?h2, process_file_change ?h2 ?w2)"
    using on_modified_accept [of ?h1 demo_event ?w2] by (simp add: demo_eligible t)
  have last: "dispatch ?h2 [] = (?h2, [], Inr ())"
    by (simp add: io_defs)
  note step = handler_isolates_failures [THEN conjunct2, THEN conjunct2, THEN conjunct2,
      THEN conjunct2, THEN conjunct1]
  have "dispatch ?h1 [(demo_event, ?w2)] = (?h2, fst (process_file_change ?h2 ?w2), Inr ())"
    by (subst step) (simp add: second last del: dispatch.simps)
  then have "dispatch demo_handler [(demo_event, ?w1), (demo_event, ?w2)] =
      (?h2, fst (process_file_change ?h1 ?w1) @ fst (process_file_change ?h2 ?w2), Inr ())"
    by (subst step) (simp add: first del: dispatch.simps)
  then show ?thesis
    by (simp add: demo_missing demo_queen_change del: dispatch.simps)
qed

subsection \<open>C10: the shape of a label line\<close>

text \<open>
  Claim C10, as the code has it. A trimmed line of the text sets the artist candidate
  exactly when it is the label \<^verbatim>\<open>Artist\<close> in any letter case that \<^verbatim>\<open>re.IGNORECASE\<close>
  accepts, then a colon, then a space, then at least one more character; the group is
  all that follows this space, and the candidate is the group trimmed, so further
  spaces before the value are accepted. The same holds for \<^verbatim>\<open>Title\<close>. A line that
  matches neither pattern changes no candidate.
\<close>

theorem label_line_shape:
  assumes "l \<in> set (splitlines content)"
  shows "(ARTIST_PATTERN (strip l) = Some g \<longleftrightarrow>
           (\<exists>lab. strip l = lab @ py '': '' @ g \<and> list_all2 lit_ignorecase (py ''Artist'') lab \<and> g \<noteq> [])) \<and>
         (TITLE_PATTERN (strip l) = Some g \<longleftrightarrow>
           (\<exists>lab. strip l = lab @ py '': '' @ g \<and> list_all2 lit_ignorecase (py ''Title'') lab \<and> g \<noteq> [])) \<and>
         extract_loop (a, t) (l # ls) =
           (case ARTIST_PATTERN (strip l) of
              Some g \<Rightarrow> extract_loop (Some (strip g), t) ls
            | None \<Rightarrow>
                (case TITLE_PATTERN (strip l) of
                   Some g \<Rightarrow> extract_loop (a, Some (strip g)) ls
                 | None \<Rightarrow> extract_loop (a, t) ls))"
proof -
  note shape = pattern_match_line [OF line_no_newline [OF assms]]
  have artist: "ARTIST_PATTERN (strip l) = Some g \<longleftrightarrow>
      (\<exists>lab. strip l = lab @ py '': '' @ g \<and> list_all2 lit_ignorecase (py ''Artist'') lab \<and> g \<noteq> [])"
    unfolding ARTIST_PATTERN_def label_split by (rule shape)
  have title: "TITLE_PATTERN (strip l) = Some g \<longleftrightarrow>
      (\<exists>lab. strip l = lab @ py '': '' @ g \<and> list_all2 lit_ignorecase (py ''Title'') lab \<and> g \<noteq> [])"
    unfolding TITLE_PATTERN_def label_split by (rule shape)
  show ?thesis
    by (intro conjI artist title extract_loop_step)
qed

theorem label_line_shape_witness:
  "py ''artist:  Queen'' \<in> set (splitlines (py ''Artist:Queen'' @ [0x0A] @ py ''artist:  Queen'')) \<and>
   ARTIST_PATTERN (strip (py ''artist:  Queen'')) = Some (py '' Queen'') \<and>
   ARTIST_PATTERN (py ''Artist:Queen'') = None \<and> TITLE_PATTERN (py ''Artist:Queen'') = None \<and>
   ARTIST_PATTERN (py ''Artist : Queen'') = None \<and> TITLE_PATTERN (py ''Artist : Queen'') = None \<and>
   extract_loop (None, Some (py ''x'')) [py ''Artist:Queen'', py ''Artist : Queen''] = (None, Some (py ''x''))"
proof -
  have l: "py ''artist:  Queen'' \<in> set (splitlines (py ''Artist:Queen'' @ [0x0A] @ py ''artist:  Queen''))"
    by (simp add: py_def is_linebreak_def)
  have s: "strip (py ''artist:  Queen'') = py ''artist'' @ py '': '' @ py '' Queen''"
    by (simp add: str_defs)
  have c: "list_all2 lit_ignorecase (py ''Artist'') (py ''artist'')"
    by (simp add: py_def lit_ignorecase_def)
  have n: "ARTIST_PATTERN (py ''Artist:Queen'') = None" "TITLE_PATTERN (py ''Artist:Queen'') = None"
    "ARTIST_PATTERN (py ''Artist : Queen'') = None" "TITLE_PATTERN (py ''Artist : Queen'') = None"
    by (simp_all add: match_defs py_def)
  have t: "strip (py ''Artist:Queen'') = py ''Artist:Queen''"
    "strip (py ''Artist : Queen'') = py ''Artist : Queen''"
    by (simp_all add: str_defs)
  have e: "py '' Queen'' \<noteq> []" by (simp add: py_def)
  from label_line_shape [OF l, of "py '' Queen''"] s c e
  have "ARTIST_PATTERN (strip (py ''artist:  Queen'')) = Some (py '' Queen'')"
    by blast
  with l n show ?thesis
    by (simp add: extract_loop_step t del: extract_loop.simps(2))
qed

text \<open>
  Two spaces after the colon: the label is not followed by exactly one space, and the
  line matches all the same; the second space goes with the trimming of the group.
\<close>

theorem two_spaces_after_colon_match:
  "ARTIST_PATTERN (py ''Artist:  Queen'') = Some (py '' Queen'') \<and>
   extract_metadata (py ''Artist:  Queen'') = (Some (py ''Queen''), None)"
  by (simp add: extract_metadata_def match_defs str_defs)

end
